theory Spec2Isabelle
  imports Complex_Main
begin

section \<open>SnowfallCanvas: particle simulation and adaptive performance engine\<close>

text \<open>
  A shallow embedding of \<^verbatim>\<open>src/index.ts\<close>. A JavaScript number is an IEEE 754 double,
  and the eight particle arrays are \<^verbatim>\<open>Float32Array\<close>s. A finite number is modelled as
  the real it denotes, and every operation of the source that can round is followed by
  the rounding of its format, to the nearest value with ties to even: \<open>double\<close> after
  \<^verbatim>\<open>+\<close>, \<^verbatim>\<open>-\<close>, \<^verbatim>\<open>*\<close> and \<^verbatim>\<open>/\<close>, and \<open>fround\<close> at a store into a
  \<^verbatim>\<open>Float32Array\<close>. \<^verbatim>\<open>Math.floor\<close>, \<^verbatim>\<open>Math.min\<close>, \<^verbatim>\<open>Math.max\<close>, negation,
  comparison and the read of an array element are exact. A decimal literal of the source
  that is not a double, such as \<^verbatim>\<open>0.05\<close>, is the double nearest to it.

  The values that are not finite appear where the source can produce them from finite
  inputs: in the density model, whose product can overflow and whose factor
  \<^verbatim>\<open>1 / this.getTargetDpr()\<close> can divide by zero. Elsewhere a result beyond the largest
  finite number of its format is outside the model, and so is the sign of a zero.

  \<^verbatim>\<open>Math.random()\<close> is an explicit stream of draws with a read position; the 2D context
  is a log of the calls made on it. The failures of the constructor (no canvas, no 2D
  context) and the plumbing around the engine (style injection, the resize and
  visibility watchers, the scheduling of frames) are outside the model: what they
  deliver to the engine appears as arguments and as the events of a session.
\<close>

subsection \<open>Rounding\<close>

text \<open>The integer nearest to \<open>y\<close>, the even one of the two when \<open>y\<close> lies halfway.\<close>

definition round_even :: "real \<Rightarrow> int" where
  "round_even y =
     (let f = \<lfloor>y\<rfloor>; d = y - of_int f
      in if d < 1/2 then f else if 1/2 < d then f + 1 else if even f then f else f + 1)"

text \<open>The binary exponent of \<open>x \<noteq> 0\<close>: \<open>2 ^ binade x \<le> \<bar>x\<bar> < 2 ^ (binade x + 1)\<close>.\<close>

definition binade :: "real \<Rightarrow> int" where
  "binade x = \<lfloor>log 2 \<bar>x\<bar>\<rfloor>"

text \<open>The spacing of the numbers with \<open>p\<close> significant bits and least exponent \<open>emin\<close>
  around \<open>x\<close>; below \<open>2 ^ emin\<close> (the subnormal numbers) the spacing is constant.\<close>

definition quantum :: "nat \<Rightarrow> int \<Rightarrow> real \<Rightarrow> real" where
  "quantum p emin x = 2 powi (max (binade x) emin - int p + 1)"

definition round_to :: "nat \<Rightarrow> int \<Rightarrow> real \<Rightarrow> real" where
  "round_to p emin x =
     (if x = 0 then 0 else of_int (round_even (x / quantum p emin x)) * quantum p emin x)"

text \<open>Rounding to a double (53 significant bits) and to a \<^verbatim>\<open>Float32\<close> (24 bits).\<close>

definition double :: "real \<Rightarrow> real" where
  "double x = round_to 53 (- 1022) x"

definition fround :: "real \<Rightarrow> real" where
  "fround x = round_to 24 (- 126) x"

subsection \<open>Numbers that may not be finite\<close>

text \<open>The result of an operation on doubles: a finite number, an infinity or
  \<^verbatim>\<open>NaN\<close>. A rounded result of magnitude \<open>2 ^ 1024\<close> or more is an infinity.\<close>

datatype dnum = Fin real | PInf | NInf | DNaN

definition to_dnum :: "real \<Rightarrow> dnum" where
  "to_dnum x =
     (if 2 ^ 1024 \<le> double x then PInf else if double x \<le> - (2 ^ 1024) then NInf
      else Fin (double x))"

fun dmul :: "dnum \<Rightarrow> dnum \<Rightarrow> dnum" where
  "dmul (Fin a) (Fin b) = to_dnum (a * b)"
| "dmul (Fin a) PInf = (if a = 0 then DNaN else if 0 < a then PInf else NInf)"
| "dmul (Fin a) NInf = (if a = 0 then DNaN else if 0 < a then NInf else PInf)"
| "dmul PInf (Fin b) = (if b = 0 then DNaN else if 0 < b then PInf else NInf)"
| "dmul NInf (Fin b) = (if b = 0 then DNaN else if 0 < b then NInf else PInf)"
| "dmul PInf PInf = PInf"
| "dmul PInf NInf = NInf"
| "dmul NInf PInf = NInf"
| "dmul NInf NInf = PInf"
| "dmul DNaN b = DNaN"
| "dmul a DNaN = DNaN"

text \<open>The quotient of two finite numbers.\<close>

definition ddiv :: "real \<Rightarrow> real \<Rightarrow> dnum" where
  "ddiv a b =
     (if b = 0 then (if a = 0 then DNaN else if 0 < a then PInf else NInf)
      else to_dnum (a / b))"

fun dfloor :: "dnum \<Rightarrow> dnum" where
  "dfloor (Fin a) = Fin (of_int \<lfloor>a\<rfloor>)"
| "dfloor PInf = PInf"
| "dfloor NInf = NInf"
| "dfloor DNaN = DNaN"

subsection \<open>Configuration and module constants\<close>

type_synonym Range = "real \<times> real"

record SnowConfig =
  amount :: real
  size_range :: Range
  swingSpeed :: Range
  fallSpeed :: Range
  amplitude_range :: Range
  color :: string
  dprCap :: real
  maxParticles :: real
  autoInsertStyles :: bool

definition defaultConfig :: SnowConfig where
  "defaultConfig = \<lparr> amount = 5000, size_range = (1/2, 3/2), swingSpeed = (double (1/10), 1),
     fallSpeed = (40, 100), amplitude_range = (25, 50), color = ''rgb(225,225,225)'',
     dprCap = 2, maxParticles = 4000, autoInsertStyles = True \<rparr>"

definition BASE_WIDTH :: real where "BASE_WIDTH = 1920"
definition BASE_HEIGHT :: real where "BASE_HEIGHT = 1080"

text \<open>\<^verbatim>\<open>Math.PI\<close> is the double nearest to \<open>\<pi>\<close>, \<open>3.141592653589793115997963\<dots>\<close>.\<close>

definition Math_PI :: real where
  "Math_PI = 884279719003555 / 281474976710656"

definition TWO_PI :: real where "TWO_PI = double (Math_PI * 2)"
definition SIN_TABLE_SIZE :: int where "SIN_TABLE_SIZE = 2048"

text \<open>\<^verbatim>\<open>Math.sin\<close> is an approximation that the language leaves to the implementation;
  it is modelled as the double nearest to the sine.\<close>

definition Math_sin :: "real \<Rightarrow> real" where
  "Math_sin x = double (sin x)"

text \<open>\<^verbatim>\<open>SIN_TABLE[i] = Math.sin((i / SIN_TABLE_SIZE) * TWO_PI)\<close> for \<open>0 \<le> i < 2048\<close>, stored
  in a \<^verbatim>\<open>Float32Array\<close>; every read of the table in the source is at an index masked
  with \<open>2047\<close>.\<close>

definition SIN_TABLE :: "int \<Rightarrow> real" where
  "SIN_TABLE i = fround (Math_sin (double (double (of_int i / of_int SIN_TABLE_SIZE) * TWO_PI)))"

subsection \<open>JavaScript number helpers\<close>

text \<open>A number that may be \<^verbatim>\<open>NaN\<close>.\<close>

datatype jsnum = Num real | NaN

text \<open>\<^verbatim>\<open>Math.min(a, b)\<close> with a finite first argument.\<close>

fun js_min :: "real \<Rightarrow> jsnum \<Rightarrow> jsnum" where
  "js_min a (Num b) = Num (min a b)"
| "js_min a NaN = NaN"

text \<open>Truncation towards zero, and \<^verbatim>\<open>x | 0\<close>: truncate, then wrap to a signed
  32-bit integer.\<close>

definition js_trunc :: "real \<Rightarrow> int" where
  "js_trunc x = (if x < 0 then \<lceil>x\<rceil> else \<lfloor>x\<rfloor>)"

definition to_int32 :: "real \<Rightarrow> int" where
  "to_int32 x = signed_take_bit 31 (js_trunc x)"

text \<open>\<^verbatim>\<open>a & b\<close> on numbers that are integers: both operands are wrapped to 32 bits.\<close>

definition js_and :: "int \<Rightarrow> int \<Rightarrow> int" where
  "js_and a b = and (signed_take_bit 31 a) (signed_take_bit 31 b)"

subsection \<open>The engine state\<close>

datatype ctx_op =
    ClearRect real real real real
  | FillRect real real real real
  | FillStyle string
  | SetTransform real real real real real real

record SnowfallCanvas =
  running :: bool
  lastTime :: real
  width :: real
  height :: real
  dpr :: real
  particleCount :: real
  posX :: "real list"
  posY :: "real list"
  originX :: "real list"
  dx :: "real list"
  size_arr :: "real list"
  amplitude :: "real list"
  velX :: "real list"
  velY :: "real list"
  frameTimeAvg :: real
  perfCooldownFrames :: nat
  dprOverride :: "real option"
  config :: SnowConfig
  devicePixelRatio :: real
  rng :: "nat \<Rightarrow> real"
  rngPos :: nat
  canvasWidth :: int
  canvasHeight :: int
  ctxLog :: "ctx_op list"

text \<open>The state after the constructor: the field initialisers of the class, the given
  configuration, and the environment (the platform's pixel ratio and the stream of
  random draws).\<close>

definition new_SnowfallCanvas :: "SnowConfig \<Rightarrow> real \<Rightarrow> (nat \<Rightarrow> real) \<Rightarrow> SnowfallCanvas" where
  "new_SnowfallCanvas cfg ratio draws =
     \<lparr> running = False, lastTime = 0, width = 0, height = 0, dpr = 1, particleCount = 0,
       posX = [], posY = [], originX = [], dx = [], size_arr = [], amplitude = [],
       velX = [], velY = [], frameTimeAvg = 16, perfCooldownFrames = 0,
       dprOverride = None, config = cfg, devicePixelRatio = ratio, rng = draws,
       rngPos = 0, canvasWidth = 0, canvasHeight = 0, ctxLog = [] \<rparr>"

subsection \<open>Random sampling\<close>

text \<open>\<^verbatim>\<open>rand(min, max) = Math.random() * (max - min) + min\<close>, consuming one draw.\<close>

definition rand :: "real \<Rightarrow> real \<Rightarrow> SnowfallCanvas \<Rightarrow> real \<times> SnowfallCanvas" where
  "rand mn mx st =
     (double (double (rng st (rngPos st) * double (mx - mn)) + mn),
      st\<lparr>rngPos := Suc (rngPos st)\<rparr>)"

subsection \<open>Fast sine\<close>

definition fastSin :: "real \<Rightarrow> real" where
  "fastSin x =
     (let norm = (if x < 0 then double (x + TWO_PI) else x);
          scaled = double (norm * double (of_int SIN_TABLE_SIZE / TWO_PI));
          idx = to_int32 scaled;
          next = js_and (idx + 1) (SIN_TABLE_SIZE - 1);
          frac = double (scaled - of_int idx);
          a = SIN_TABLE (js_and idx (SIN_TABLE_SIZE - 1));
          b = SIN_TABLE next
      in double (a + double (double (b - a) * frac)))"

subsection \<open>Density model\<close>

definition getTargetDpr :: "SnowfallCanvas \<Rightarrow> real" where
  "getTargetDpr st =
     (let rawDpr = (if devicePixelRatio st = 0 then 1 else devicePixelRatio st);
          base = max 1 rawDpr;
          overridden = (case dprOverride st of Some ov \<Rightarrow> min base ov | None \<Rightarrow> base)
      in min (dprCap (config st)) overridden)"

text \<open>\<^verbatim>\<open>Math.max(0, Math.min(maxParticles, estimated))\<close> for an estimate that may be
  infinite or \<^verbatim>\<open>NaN\<close>.\<close>

fun clamp_count :: "real \<Rightarrow> dnum \<Rightarrow> jsnum" where
  "clamp_count m (Fin e) = Num (max 0 (min m e))"
| "clamp_count m PInf = Num (max 0 m)"
| "clamp_count m NInf = Num 0"
| "clamp_count m DNaN = NaN"

definition getDensityAdjustedCount :: "SnowfallCanvas \<Rightarrow> real \<Rightarrow> real \<Rightarrow> jsnum" where
  "getDensityAdjustedCount st w h =
     (if w \<le> 0 \<or> h \<le> 0 then Num 0
      else
        let baseArea = double (BASE_WIDTH * BASE_HEIGHT);
            density = ddiv (amount (config st)) baseArea;
            dprFactor = ddiv 1 (getTargetDpr st);
            estimated = dfloor (dmul (dmul (dmul density (Fin w)) (Fin h)) dprFactor)
        in clamp_count (maxParticles (config st)) estimated)"

subsection \<open>Seeding and recycling particles\<close>

definition seedParticle :: "nat \<Rightarrow> SnowfallCanvas \<Rightarrow> SnowfallCanvas" where
  "seedParticle i st =
     (let (ox, s1) = rand 0 (width st) st;
          s2 = s1\<lparr>originX := (originX s1)[i := fround ox]\<rparr>;
          s3 = s2\<lparr>posX := (posX s2)[i := fround (originX s2 ! i)]\<rparr>;
          (y, s4) = rand (- height s3) 0 s3;
          s5 = s4\<lparr>posY := (posY s4)[i := fround y]\<rparr>;
          (p, s6) = rand 0 TWO_PI s5;
          s7 = s6\<lparr>dx := (dx s6)[i := fround p]\<rparr>;
          (vx, s8) = rand (fst (swingSpeed (config s7))) (snd (swingSpeed (config s7))) s7;
          s9 = s8\<lparr>velX := (velX s8)[i := fround vx]\<rparr>;
          (vy, s10) = rand (fst (fallSpeed (config s9))) (snd (fallSpeed (config s9))) s9;
          s11 = s10\<lparr>velY := (velY s10)[i := fround vy]\<rparr>;
          (sz, s12) = rand (fst (size_range (config s11))) (snd (size_range (config s11))) s11;
          s13 = s12\<lparr>size_arr := (size_arr s12)[i := fround sz]\<rparr>;
          (am, s14) = rand (fst (amplitude_range (config s13))) (snd (amplitude_range (config s13))) s13
      in s14\<lparr>amplitude := (amplitude s14)[i := fround am]\<rparr>)"

text \<open>\<^verbatim>\<open>new Float32Array(count)\<close> has \<open>\<lfloor>count\<rfloor>\<close> zero entries (the limit on the
  length of an array is not modelled); the seeding loop runs for every \<open>i < count\<close>, and
  a write past the end of a typed array is ignored, as \<open>xs[i := v]\<close> is.\<close>

definition reseedParticles :: "real \<Rightarrow> SnowfallCanvas \<Rightarrow> SnowfallCanvas" where
  "reseedParticles count st =
     (let s1 = st\<lparr>particleCount := count\<rparr>;
          needsResize = (real (length (posX s1)) \<noteq> count);
          n = nat \<lfloor>count\<rfloor>;
          s2 = (if needsResize
                then s1\<lparr>posX := replicate n 0, posY := replicate n 0,
                        originX := replicate n 0, dx := replicate n 0,
                        size_arr := replicate n 0, amplitude := replicate n 0,
                        velX := replicate n 0, velY := replicate n 0\<rparr>
                else s1)
      in fold seedParticle [0..<nat \<lceil>count\<rceil>] s2)"

definition resetTop :: "nat \<Rightarrow> SnowfallCanvas \<Rightarrow> SnowfallCanvas" where
  "resetTop i st =
     (let s1 = st\<lparr>posY := (posY st)[i := fround (- (size_arr st ! i))]\<rparr>;
          (x, s2) = rand 0 (width s1) s1;
          s3 = s2\<lparr>posX := (posX s2)[i := fround x]\<rparr>;
          s4 = s3\<lparr>originX := (originX s3)[i := fround x]\<rparr>;
          (p, s5) = rand 0 TWO_PI s4
      in s5\<lparr>dx := (dx s5)[i := fround p]\<rparr>)"

subsection \<open>Simulation step\<close>

text \<open>The body of the loop of \<^verbatim>\<open>update\<close> for one index. The eight arrays are always
  allocated together with one length; at an index past their end every read is
  \<^verbatim>\<open>undefined\<close>, every write is ignored and both comparisons are false, so the body
  does nothing.\<close>

definition update_particle :: "real \<Rightarrow> nat \<Rightarrow> SnowfallCanvas \<Rightarrow> SnowfallCanvas" where
  "update_particle dt i st =
     (if length (posY st) \<le> i then st
      else
        let s1 = st\<lparr>posY := (posY st)[i := fround (double (posY st ! i + double (velY st ! i * dt)))]\<rparr>;
            s2 = s1\<lparr>dx := (dx s1)[i := fround (double (dx s1 ! i + double (velX s1 ! i * dt)))]\<rparr>;
            s3 = (if dx s2 ! i > TWO_PI
                  then s2\<lparr>dx := (dx s2)[i := fround (double (dx s2 ! i - TWO_PI))]\<rparr> else s2);
            s4 = s3\<lparr>posX := (posX s3)[i :=
                   fround (double (originX s3 ! i + double (amplitude s3 ! i * fastSin (dx s3 ! i))))]\<rparr>
        in if double (posY s4 ! i - size_arr s4 ! i) > height s4 then resetTop i s4 else s4)"

definition update :: "real \<Rightarrow> SnowfallCanvas \<Rightarrow> SnowfallCanvas" where
  "update dt st = fold (update_particle dt) [0..<nat \<lceil>particleCount st\<rceil>] st"

subsection \<open>Render step\<close>

text \<open>\<^verbatim>\<open>fillRect\<close> with an \<^verbatim>\<open>undefined\<close> argument paints nothing, so only indices
  inside the arrays are logged.\<close>

definition draw :: "SnowfallCanvas \<Rightarrow> SnowfallCanvas" where
  "draw st =
     st\<lparr>ctxLog := ctxLog st @ FillStyle (color (config st)) #
        map (\<lambda>i. FillRect (posX st ! i) (posY st ! i) (size_arr st ! i) (size_arr st ! i))
          (filter (\<lambda>i. i < length (posX st)) [0..<nat \<lceil>particleCount st\<rceil>])\<rparr>"

definition clear :: "SnowfallCanvas \<Rightarrow> SnowfallCanvas" where
  "clear st = st\<lparr>ctxLog := ctxLog st @ [ClearRect 0 0 (width st) (height st)]\<rparr>"

subsection \<open>Resizing\<close>

text \<open>The optional argument \<^verbatim>\<open>nextCount\<close> is \<open>None\<close> when omitted. Of the canvas
  element the model keeps the size of the pixel buffer; its CSS size is left out.\<close>

definition resize :: "real \<Rightarrow> real \<Rightarrow> jsnum option \<Rightarrow> SnowfallCanvas \<Rightarrow> SnowfallCanvas" where
  "resize w h nextCount st =
     (let normalizedWidth = max 1 (of_int \<lfloor>w\<rfloor>);
          normalizedHeight = max 1 (of_int \<lfloor>h\<rfloor>);
          d = getTargetDpr st;
          count = (case nextCount of Some c \<Rightarrow> c | None \<Rightarrow> Num (particleCount st));
          dimensionsChanged =
            (normalizedWidth \<noteq> width st \<or> normalizedHeight \<noteq> height st \<or> d \<noteq> dpr st);
          s1 = st\<lparr>width := normalizedWidth, height := normalizedHeight, dpr := d,
                  canvasWidth := \<lfloor>double (normalizedWidth * d)\<rfloor>,
                  canvasHeight := \<lfloor>double (normalizedHeight * d)\<rfloor>,
                  ctxLog := ctxLog st @ [SetTransform d 0 0 d 0 0]\<rparr>
      in case count of
           Num c \<Rightarrow>
             if c > 0 \<and> (dimensionsChanged \<or> c \<noteq> particleCount st)
             then reseedParticles c s1 else s1
         | NaN \<Rightarrow> s1)"

text \<open>\<^verbatim>\<open>resizeToContainer\<close>, given the width and height read from the container (or the
  window).\<close>

definition resizeToContainer :: "real \<Rightarrow> real \<Rightarrow> SnowfallCanvas \<Rightarrow> SnowfallCanvas" where
  "resizeToContainer w h st =
     (let nextCount = getDensityAdjustedCount st w h
      in resize w h (Some nextCount) st)"

subsection \<open>Changing the configuration\<close>

text \<open>\<^verbatim>\<open>setAmount\<close> and \<^verbatim>\<open>setMaxParticles\<close> re-seed with the count of the density
  model, whatever it is. When that count is \<^verbatim>\<open>NaN\<close> the particle count of the engine
  becomes \<^verbatim>\<open>NaN\<close>, a state this model does not represent: the result is \<open>None\<close>.\<close>

definition setAmount :: "real \<Rightarrow> SnowfallCanvas \<Rightarrow> SnowfallCanvas option" where
  "setAmount a st =
     (let next = max 0 (of_int \<lfloor>a\<rfloor>);
          s1 = st\<lparr>config := (config st)\<lparr>amount := next\<rparr>\<rparr>
      in case getDensityAdjustedCount s1 (width s1) (height s1) of
           Num count \<Rightarrow> Some (reseedParticles count s1)
         | NaN \<Rightarrow> None)"

definition setMaxParticles :: "real \<Rightarrow> SnowfallCanvas \<Rightarrow> SnowfallCanvas option" where
  "setMaxParticles m st =
     (let capped = max 0 (of_int \<lfloor>m\<rfloor>);
          s1 = st\<lparr>config := (config st)\<lparr>maxParticles := capped\<rparr>\<rparr>
      in case getDensityAdjustedCount s1 (width s1) (height s1) of
           Num count \<Rightarrow> Some (reseedParticles count s1)
         | NaN \<Rightarrow> None)"

subsection \<open>Adaptive performance controller\<close>

definition maybeAdjustPerformance :: "SnowfallCanvas \<Rightarrow> SnowfallCanvas" where
  "maybeAdjustPerformance st =
     (if perfCooldownFrames st > 0 then st\<lparr>perfCooldownFrames := perfCooldownFrames st - 1\<rparr>
      else if frameTimeAvg st > 22 then
        let loweredDpr = max 1 (min (dpr st) (5/4));
            reducedCount = max 200 (of_int \<lfloor>double (particleCount st * (3/4))\<rfloor>);
            needsDprReduce =
              (loweredDpr < (case dprOverride st of Some ov \<Rightarrow> ov | None \<Rightarrow> dpr st));
            needsCountReduce = (reducedCount < particleCount st);
            s1 = (if needsDprReduce then st\<lparr>dprOverride := Some loweredDpr\<rparr> else st)
        in if needsDprReduce \<or> needsCountReduce then
             let s2 = s1\<lparr>perfCooldownFrames := 90\<rparr>;
                 nextCount = js_min reducedCount
                               (getDensityAdjustedCount s2 (width s2) (height s2))
             in resize (width s2) (height s2) (Some nextCount) s2
           else s1
      else st)"

subsection \<open>The frame loop\<close>

text \<open>One invocation of the frame callback with timestamp \<open>t\<close>. Scheduling the next
  callback belongs to the host and is not modelled.\<close>

definition loop :: "real \<Rightarrow> SnowfallCanvas \<Rightarrow> SnowfallCanvas" where
  "loop t st =
     (if \<not> running st then st
      else
        let frameMs = double (t - lastTime st);
            dt = min (double (1/20)) (double (frameMs / 1000));
            s1 = st\<lparr>lastTime := t,
                    frameTimeAvg := double (double (frameTimeAvg st * double (9/10))
                                            + double (frameMs * double (1/10)))\<rparr>;
            s2 = clear s1;
            s3 = update dt s2;
            s4 = draw s3
        in maybeAdjustPerformance s4)"

text \<open>\<^verbatim>\<open>start()\<close> at \<^verbatim>\<open>performance.now() = now\<close>, and \<^verbatim>\<open>stop()\<close>.\<close>

definition start :: "real \<Rightarrow> SnowfallCanvas \<Rightarrow> SnowfallCanvas" where
  "start now st = (if running st then st else loop now (st\<lparr>running := True, lastTime := now\<rparr>))"

definition stop :: "SnowfallCanvas \<Rightarrow> SnowfallCanvas" where
  "stop st = st\<lparr>running := False\<rparr>"

section \<open>Notions used in the properties\<close>

subsection \<open>The numbers of a format\<close>

text \<open>The numbers with \<open>p\<close> significant bits and least exponent \<open>emin\<close>: an integer
  of less than \<open>p\<close> bits times a power of two that is at least the least spacing.\<close>

definition representable :: "nat \<Rightarrow> int \<Rightarrow> real \<Rightarrow> bool" where
  "representable p emin x \<longleftrightarrow>
     (\<exists>m k. x = of_int m * 2 powi k \<and> \<bar>m\<bar> < 2 ^ p \<and> emin - int p + 1 \<le> k)"

subsection \<open>One particle of the store\<close>

text \<open>The eight components of particle \<open>i\<close>, read from the eight arrays; the arrays
  of a store share one length.\<close>

record particle =
  p_posX :: real
  p_posY :: real
  p_originX :: real
  p_dx :: real
  p_size :: real
  p_amplitude :: real
  p_velX :: real
  p_velY :: real

definition particle_of :: "SnowfallCanvas \<Rightarrow> nat \<Rightarrow> particle" where
  "particle_of st i =
     \<lparr> p_posX = posX st ! i, p_posY = posY st ! i, p_originX = originX st ! i,
       p_dx = dx st ! i, p_size = size_arr st ! i, p_amplitude = amplitude st ! i,
       p_velX = velX st ! i, p_velY = velY st ! i \<rparr>"

definition store_ok :: "SnowfallCanvas \<Rightarrow> bool" where
  "store_ok st \<longleftrightarrow>
     length (posX st) = length (posY st) \<and> length (originX st) = length (posY st) \<and>
     length (dx st) = length (posY st) \<and> length (size_arr st) = length (posY st) \<and>
     length (amplitude st) = length (posY st) \<and> length (velX st) = length (posY st) \<and>
     length (velY st) = length (posY st)"

text \<open>The number \<^verbatim>\<open>rand(min, max)\<close> returns for the draw \<open>u\<close>.\<close>

definition uniform :: "real \<Rightarrow> real \<Rightarrow> real \<Rightarrow> real" where
  "uniform mn mx u = double (double (u * double (mx - mn)) + mn)"

text \<open>The four statements of the loop body of \<^verbatim>\<open>update\<close> before the check of the
  bottom edge, on one particle, in their order: the fall, the advance of the phase with
  its single conditional subtraction, and the horizontal position.\<close>

definition move_particle :: "real \<Rightarrow> particle \<Rightarrow> particle" where
  "move_particle dt p =
     (let y = fround (double (p_posY p + double (p_velY p * dt)));
          phase = fround (double (p_dx p + double (p_velX p * dt)));
          wrapped = (if phase > TWO_PI then fround (double (phase - TWO_PI)) else phase);
          x = fround (double (p_originX p + double (p_amplitude p * fastSin wrapped)))
      in p\<lparr>p_posY := y, p_dx := wrapped, p_posX := x\<rparr>)"

text \<open>The check of the bottom edge, as the code computes it.\<close>

definition past_bottom :: "real \<Rightarrow> particle \<Rightarrow> bool" where
  "past_bottom h p \<longleftrightarrow> double (p_posY p - p_size p) > h"

definition recycle_particle :: "real \<Rightarrow> real \<Rightarrow> real \<Rightarrow> particle \<Rightarrow> particle" where
  "recycle_particle w u1 u2 p =
     p\<lparr> p_posY := fround (- p_size p), p_posX := fround (uniform 0 w u1),
        p_originX := fround (uniform 0 w u1), p_dx := fround (uniform 0 TWO_PI u2) \<rparr>"

definition advance_particle :: "real \<Rightarrow> real \<Rightarrow> real \<Rightarrow> real \<Rightarrow> real \<Rightarrow> particle \<Rightarrow> particle" where
  "advance_particle dt w h u1 u2 p =
     (if past_bottom h (move_particle dt p) then recycle_particle w u1 u2 (move_particle dt p)
      else move_particle dt p)"

text \<open>Particle \<open>j\<close> of the store is recycled by an update with step \<open>dt\<close>; the number of
  draws the update has read when it reaches particle \<open>i\<close>, two for every recycled
  particle before it.\<close>

definition recycled :: "real \<Rightarrow> SnowfallCanvas \<Rightarrow> nat \<Rightarrow> bool" where
  "recycled dt st j \<longleftrightarrow>
     j < length (posY st) \<and> past_bottom (height st) (move_particle dt (particle_of st j))"

definition draws_before :: "real \<Rightarrow> SnowfallCanvas \<Rightarrow> nat \<Rightarrow> nat" where
  "draws_before dt st i = 2 * length (filter (recycled dt st) [0..<i])"

text \<open>The first four statements of the loop body of \<^verbatim>\<open>update\<close> on the store.\<close>

definition moved :: "real \<Rightarrow> nat \<Rightarrow> SnowfallCanvas \<Rightarrow> SnowfallCanvas" where
  "moved dt i st =
     (let s1 = st\<lparr>posY := (posY st)[i := fround (double (posY st ! i + double (velY st ! i * dt)))]\<rparr>;
          s2 = s1\<lparr>dx := (dx s1)[i := fround (double (dx s1 ! i + double (velX s1 ! i * dt)))]\<rparr>;
          s3 = (if dx s2 ! i > TWO_PI
                then s2\<lparr>dx := (dx s2)[i := fround (double (dx s2 ! i - TWO_PI))]\<rparr> else s2)
      in s3\<lparr>posX := (posX s3)[i :=
            fround (double (originX s3 ! i + double (amplitude s3 ! i * fastSin (dx s3 ! i))))]\<rparr>)"

subsection \<open>The density model\<close>

definition clamp_spec :: "real \<Rightarrow> real \<Rightarrow> real \<Rightarrow> real" where
  "clamp_spec x lo hi = (if x < lo then lo else if hi < x then hi else x)"

text \<open>The product \<^verbatim>\<open>density * width * height * dprFactor\<close> as the code evaluates it,
  from left to right in doubles.\<close>

definition estimate :: "SnowfallCanvas \<Rightarrow> real \<Rightarrow> real \<Rightarrow> dnum" where
  "estimate st w h =
     dmul (dmul (dmul (ddiv (amount (config st)) (double (BASE_WIDTH * BASE_HEIGHT))) (Fin w)) (Fin h))
       (ddiv 1 (getTargetDpr st))"

text \<open>The order of the values that are numbers, and the values that are at least
  zero and at most zero.\<close>

fun dle :: "dnum \<Rightarrow> dnum \<Rightarrow> bool" where
  "dle (Fin a) (Fin b) = (a \<le> b)"
| "dle NInf (Fin b) = True"
| "dle NInf PInf = True"
| "dle NInf NInf = True"
| "dle (Fin a) PInf = True"
| "dle PInf PInf = True"
| "dle a b = False"

fun nonneg_d :: "dnum \<Rightarrow> bool" where
  "nonneg_d (Fin a) = (0 \<le> a)"
| "nonneg_d PInf = True"
| "nonneg_d a = False"

fun nonpos_d :: "dnum \<Rightarrow> bool" where
  "nonpos_d (Fin a) = (a \<le> 0)"
| "nonpos_d NInf = True"
| "nonpos_d a = False"

text \<open>The positive normal doubles: the scales whose reciprocal is a positive finite
  double.\<close>

definition normal_scale :: "real \<Rightarrow> bool" where
  "normal_scale s \<longleftrightarrow> 2 powi (- 1022) \<le> s \<and> s \<le> 2 ^ 1024"

text \<open>An engine without particles to ask for (amount 0) whose pixel density cap is the
  subnormal double \<open>2 ^ - 1030\<close>.\<close>

definition tiny_scale_engine :: SnowfallCanvas where
  "tiny_scale_engine =
     new_SnowfallCanvas (defaultConfig\<lparr>amount := 0, dprCap := 2 powi (- 1030)\<rparr>) 1 (\<lambda>n. 1/2)"

subsection \<open>The random source\<close>

text \<open>\<^verbatim>\<open>Math.random()\<close> returns a number in \<open>[0, 1)\<close>.\<close>

definition rng_ok :: "SnowfallCanvas \<Rightarrow> bool" where
  "rng_ok st \<longleftrightarrow> (\<forall>n. 0 \<le> rng st n \<and> rng st n < 1)"

subsection \<open>Example stores\<close>

text \<open>A 1920 by 1080 surface with two particles falling at 80 units per second: the
  first well above the bottom edge, the second about to cross it.\<close>

definition two_flakes :: SnowfallCanvas where
  "two_flakes = (new_SnowfallCanvas defaultConfig 1 (\<lambda>n. 1/2))
     \<lparr> running := True, width := 1920, height := 1080, particleCount := 2,
       posX := [100, 200], posY := [500, 1079], originX := [100, 200], dx := [0, 1],
       size_arr := [1, 1], amplitude := [30, 30], velX := [1/2, 1/2], velY := [80, 80] \<rparr>"

text \<open>The same particle about to cross the bottom edge, alone, when every draw of
  \<^verbatim>\<open>Math.random()\<close> is the largest double below 1.\<close>

definition late_draws :: SnowfallCanvas where
  "late_draws = (new_SnowfallCanvas defaultConfig 1 (\<lambda>n. 1 - 1 / 2 ^ 53))
     \<lparr> running := True, width := 1920, height := 1080, particleCount := 1,
       posX := [200], posY := [1079], originX := [200], dx := [1],
       size_arr := [1], amplitude := [30], velX := [1/2], velY := [80] \<rparr>"

text \<open>One particle with a negative fall rate (a configuration with a negative
  \<^verbatim>\<open>fallSpeed\<close> range).\<close>

definition rising_flake :: SnowfallCanvas where
  "rising_flake = (new_SnowfallCanvas defaultConfig 1 (\<lambda>n. 1/2))
     \<lparr> running := True, width := 1920, height := 1080, particleCount := 1,
       posX := [100], posY := [500], originX := [100], dx := [0],
       size_arr := [1], amplitude := [30], velX := [1/2], velY := [- 100] \<rparr>"

text \<open>One particle falling at 100 units per second from the \<^verbatim>\<open>Float32\<close> nearest to
  \<open>0.3\<close>.\<close>

definition rounded_flake :: SnowfallCanvas where
  "rounded_flake = (new_SnowfallCanvas defaultConfig 1 (\<lambda>n. 1/2))
     \<lparr> running := True, width := 1920, height := 1080, particleCount := 1,
       posX := [100], posY := [fround (3/10)], originX := [100], dx := [0],
       size_arr := [1], amplitude := [30], velX := [1/2], velY := [100] \<rparr>"

text \<open>One particle of size \<open>- 2000\<close> at rest (a configuration with a negative
  \<^verbatim>\<open>size\<close> range and a \<^verbatim>\<open>fallSpeed\<close> range of zero).\<close>

definition negative_size_flake :: SnowfallCanvas where
  "negative_size_flake = (new_SnowfallCanvas defaultConfig 1 (\<lambda>n. 1/2))
     \<lparr> running := True, width := 1920, height := 1080, particleCount := 1,
       posX := [100], posY := [500], originX := [100], dx := [0],
       size_arr := [- 2000], amplitude := [30], velX := [1/2], velY := [0] \<rparr>"

text \<open>One particle with a swing rate of 400 radians per second, and one whose phase
  passes \<^verbatim>\<open>TWO_PI\<close> in a step of 0.05 s.\<close>

definition spinning_flake :: SnowfallCanvas where
  "spinning_flake = (new_SnowfallCanvas defaultConfig 1 (\<lambda>n. 1/2))
     \<lparr> running := True, width := 1920, height := 1080, particleCount := 1,
       posX := [100], posY := [500], originX := [100], dx := [0],
       size_arr := [1], amplitude := [30], velX := [400], velY := [80] \<rparr>"

definition wrapping_flake :: SnowfallCanvas where
  "wrapping_flake = (new_SnowfallCanvas defaultConfig 1 (\<lambda>n. 1/2))
     \<lparr> running := True, width := 1920, height := 1080, particleCount := 1,
       posX := [100], posY := [500], originX := [100], dx := [6],
       size_arr := [1], amplitude := [30], velX := [10], velY := [80] \<rparr>"

subsection \<open>Sessions\<close>

text \<open>What happens to an engine during a session: a frame callback with its timestamp,
  a resize of the container to a width and height, a change of the platform's pixel
  ratio, \<^verbatim>\<open>start()\<close> at a time, and \<^verbatim>\<open>stop()\<close>.\<close>

datatype event =
    Frame real
  | ContainerSized real real
  | PixelRatioChanged real
  | Started real
  | Stopped

fun step :: "event \<Rightarrow> SnowfallCanvas \<Rightarrow> SnowfallCanvas" where
  "step (Frame t) st = loop t st"
| "step (ContainerSized w h) st = resizeToContainer w h st"
| "step (PixelRatioChanged r) st = st\<lparr>devicePixelRatio := r\<rparr>"
| "step (Started now) st = start now st"
| "step Stopped st = stop st"

definition run :: "event list \<Rightarrow> SnowfallCanvas \<Rightarrow> SnowfallCanvas" where
  "run evs st = fold step evs st"

text \<open>The step and the average frame time of the frame callback at timestamp \<open>t\<close>.\<close>

definition tick_dt :: "real \<Rightarrow> SnowfallCanvas \<Rightarrow> real" where
  "tick_dt t st = min (double (1/20)) (double (double (t - lastTime st) / 1000))"

definition tick_avg :: "real \<Rightarrow> SnowfallCanvas \<Rightarrow> real" where
  "tick_avg t st =
     double (double (frameTimeAvg st * double (9/10)) + double (double (t - lastTime st) * double (1/10)))"

text \<open>The order on overrides: no override is above every override.\<close>

definition override_le :: "real option \<Rightarrow> real option \<Rightarrow> bool" where
  "override_le new old =
     (case old of None \<Rightarrow> True
      | Some b \<Rightarrow> (case new of None \<Rightarrow> False | Some a \<Rightarrow> a \<le> b))"

text \<open>The scale the platform reports, \<^verbatim>\<open>window.devicePixelRatio || 1\<close>.\<close>

definition platformScale :: "SnowfallCanvas \<Rightarrow> real" where
  "platformScale st = (if devicePixelRatio st = 0 then 1 else devicePixelRatio st)"

text \<open>After the first resize the surface is at least 1 by 1; before it the store is
  empty.\<close>

definition sized_or_empty :: "SnowfallCanvas \<Rightarrow> bool" where
  "sized_or_empty st \<longleftrightarrow> (1 \<le> width st \<and> 1 \<le> height st) \<or> particleCount st = 0"

subsection \<open>Example engines\<close>

text \<open>A freshly constructed engine with the default configuration, every random draw
  \<open>1/2\<close>, on a platform with pixel ratio 1 and with pixel ratio 2.\<close>

definition engine_1x :: SnowfallCanvas where
  "engine_1x = new_SnowfallCanvas defaultConfig 1 (\<lambda>n. 1/2)"

definition engine_2x :: SnowfallCanvas where
  "engine_2x = new_SnowfallCanvas defaultConfig 2 (\<lambda>n. 1/2)"

text \<open>An engine on a platform with pixel ratio 2 whose 30 by 26 surface holds one
  particle, running with an average frame time of 30 ms.\<close>

definition slow_engine :: SnowfallCanvas where
  "slow_engine = (new_SnowfallCanvas defaultConfig 2 (\<lambda>n. 1/2))
     \<lparr> running := True, width := 30, height := 26, dpr := 2, particleCount := 1,
       posX := [15], posY := [- 20], originX := [15], dx := [0],
       size_arr := [1], amplitude := [30], velX := [1/2], velY := [80],
       frameTimeAvg := 30 \<rparr>"

section \<open>Properties\<close>

subsection \<open>Rounding to the nearest value of a format\<close>

text \<open>Rounding returns a number of the format, one nearest to its argument; it is
  monotone, leaves the numbers of the format unchanged, and its error is at most half
  the spacing of the format around the argument.\<close>

lemma round_even_cases:
  "round_even y = \<lfloor>y\<rfloor> \<and> y - of_int \<lfloor>y\<rfloor> \<le> 1/2 \<or> round_even y = \<lfloor>y\<rfloor> + 1 \<and> 1/2 \<le> y - of_int \<lfloor>y\<rfloor>"
  by (simp add: round_even_def Let_def)

lemma round_even_near: "\<bar>of_int (round_even y) - y\<bar> \<le> 1/2"
  using round_even_cases [of y] by (auto simp: abs_le_iff)

lemma round_even_nearest: "\<bar>of_int (round_even y) - y\<bar> \<le> \<bar>of_int n - y\<bar>"
proof (cases "n \<le> \<lfloor>y\<rfloor>")
  case True
  then have "of_int n \<le> (of_int \<lfloor>y\<rfloor> :: real)" by simp
  then show ?thesis using round_even_cases [of y] by (auto simp: abs_le_iff) linarith+
next
  case False
  then have "\<lfloor>y\<rfloor> + 1 \<le> n" by simp
  then have "of_int \<lfloor>y\<rfloor> + 1 \<le> (of_int n :: real)" by linarith
  then show ?thesis using round_even_cases [of y] by (auto simp: abs_le_iff) linarith+
qed

lemma round_even_of_int [simp]: "round_even (of_int n) = n"
  by (simp add: round_even_def)

lemma round_even_eqI: "\<bar>y - of_int n\<bar> < 1/2 \<Longrightarrow> round_even y = n"
proof -
  assume a: "\<bar>y - of_int n\<bar> < 1/2"
  have "\<bar>of_int (round_even y) - y\<bar> \<le> 1/2" by (rule round_even_near)
  with a have "\<bar>(of_int (round_even y) :: real) - of_int n\<bar> < 1" by linarith
  then have "\<bar>of_int (round_even y - n) :: real\<bar> < 1" by simp
  then have "\<bar>round_even y - n\<bar> < 1" by linarith
  then show ?thesis by simp
qed

lemma round_even_mono: "x \<le> y \<Longrightarrow> round_even x \<le> round_even y"
proof -
  assume xy: "x \<le> y"
  then have fl: "\<lfloor>x\<rfloor> \<le> \<lfloor>y\<rfloor>" by (rule floor_mono)
  show ?thesis
  proof (cases "\<lfloor>x\<rfloor> = \<lfloor>y\<rfloor>")
    case True
    with xy have "x - of_int \<lfloor>x\<rfloor> \<le> y - of_int \<lfloor>y\<rfloor>" by simp
    then show ?thesis using True by (auto simp: round_even_def Let_def)
  next
    case False
    with fl have "\<lfloor>x\<rfloor> + 1 \<le> \<lfloor>y\<rfloor>" by simp
    moreover have "round_even x \<le> \<lfloor>x\<rfloor> + 1" using round_even_cases [of x] by auto
    moreover have "\<lfloor>y\<rfloor> \<le> round_even y" using round_even_cases [of y] by auto
    ultimately show ?thesis by linarith
  qed
qed

lemma round_even_minus: "round_even (- y) = - round_even y"
proof (cases "y = of_int \<lfloor>y\<rfloor>")
  case True
  then obtain n where "y = of_int n" ..
  then show ?thesis by (simp flip: of_int_minus)
next
  case False
  then have c: "\<lceil>y\<rceil> = \<lfloor>y\<rfloor> + 1" by (simp add: ceiling_altdef)
  have f: "\<lfloor>- y\<rfloor> = - \<lfloor>y\<rfloor> - 1" using c by (simp add: ceiling_def)
  have lt: "of_int \<lfloor>y\<rfloor> < y" using False by (metis floor_correct less_eq_real_def)
  show ?thesis
    unfolding round_even_def Let_def f
    by (auto simp: algebra_simps)
qed

lemma quantum_pos [simp]: "0 < quantum p emin x"
  by (simp add: quantum_def)

lemma binade_bounds:
  assumes "x \<noteq> 0"
  shows "2 powi binade x \<le> \<bar>x\<bar>" "\<bar>x\<bar> < 2 powi (binade x + 1)"
proof -
  have pos: "0 < \<bar>x\<bar>" using assms by simp
  have a: "(2::real) powr real_of_int (binade x) = 2 powi binade x"
    and b: "(2::real) powr (real_of_int (binade x) + 1) = 2 powi (binade x + 1)"
    using powr_real_of_int' [of "2::real" "binade x"] powr_real_of_int' [of "2::real" "binade x + 1"]
    by simp_all
  have "\<lfloor>log 2 \<bar>x\<bar>\<rfloor> = binade x" by (simp add: binade_def)
  then have "2 powr real_of_int (binade x) \<le> \<bar>x\<bar> \<and> \<bar>x\<bar> < 2 powr (real_of_int (binade x) + 1)"
    using floor_log_eq_powr_iff [of "\<bar>x\<bar>" 2 "binade x"] pos by simp
  then show "2 powi binade x \<le> \<bar>x\<bar>" "\<bar>x\<bar> < 2 powi (binade x + 1)"
    unfolding a b by simp_all
qed

lemma binade_eqI:
  assumes "2 powi e \<le> \<bar>x\<bar>" "\<bar>x\<bar> < 2 powi (e + 1)"
  shows "binade x = e"
proof -
  have pos: "0 < \<bar>x\<bar>" using assms(1) by (smt (verit) zero_less_power_int)
  have a: "(2::real) powr real_of_int e = 2 powi e"
    and b: "(2::real) powr (real_of_int e + 1) = 2 powi (e + 1)"
    using powr_real_of_int' [of "2::real" e] powr_real_of_int' [of "2::real" "e + 1"]
    by simp_all
  have "2 powr real_of_int e \<le> \<bar>x\<bar> \<and> \<bar>x\<bar> < 2 powr (real_of_int e + 1)"
    unfolding a b using assms by simp
  then show ?thesis
    unfolding binade_def using floor_log_eq_powr_iff [of "\<bar>x\<bar>" 2 e] pos by simp
qed


lemma round_to_0 [simp]: "round_to p emin 0 = 0"
  by (simp add: round_to_def)

lemma quantum_eq:
  "quantum p emin x = 2 powi (max (binade x) emin - int p + 1)"
  by (simp add: quantum_def)

lemma round_to_step:
  assumes "x \<noteq> 0"
  shows "round_to p emin x = of_int (round_even (x / quantum p emin x)) * quantum p emin x"
  using assms by (simp add: round_to_def)

lemma scaled_near:
  assumes q: "0 < (q::real)"
  shows "\<bar>of_int (round_even (x / q)) * q - x\<bar> \<le> \<bar>of_int N * q - x\<bar>"
proof -
  have "\<bar>of_int (round_even (x / q)) - x / q\<bar> \<le> \<bar>of_int N - x / q\<bar>"
    by (rule round_even_nearest)
  then have "\<bar>of_int (round_even (x / q)) - x / q\<bar> * q \<le> \<bar>of_int N - x / q\<bar> * q"
    using q by (simp add: mult_right_mono)
  moreover have "\<bar>of_int M - x / q\<bar> * q = \<bar>of_int M * q - x\<bar>" for M :: int
  proof -
    have "\<bar>of_int M - x / q\<bar> * q = \<bar>(of_int M - x / q) * q\<bar>"
      using q by (simp add: abs_mult)
    also have "(of_int M - x / q) * q = of_int M * q - x"
      using q by (simp add: field_simps)
    finally show ?thesis .
  qed
  ultimately show ?thesis by simp
qed

lemma scaled_half:
  assumes q: "0 < (q::real)"
  shows "\<bar>of_int (round_even (x / q)) * q - x\<bar> \<le> q / 2"
proof -
  have "\<bar>of_int (round_even (x / q)) - x / q\<bar> \<le> 1/2" by (rule round_even_near)
  then have "\<bar>of_int (round_even (x / q)) - x / q\<bar> * q \<le> 1/2 * q"
    using q by (simp add: mult_right_mono)
  moreover have "\<bar>of_int (round_even (x / q)) - x / q\<bar> * q = \<bar>of_int (round_even (x / q)) * q - x\<bar>"
  proof -
    have "\<bar>of_int (round_even (x / q)) - x / q\<bar> * q = \<bar>(of_int (round_even (x / q)) - x / q) * q\<bar>"
      using q by (simp add: abs_mult)
    also have "(of_int (round_even (x / q)) - x / q) * q = of_int (round_even (x / q)) * q - x"
      using q by (simp add: field_simps)
    finally show ?thesis .
  qed
  ultimately show ?thesis by simp
qed

lemma two_powi_add: "(2::real) powi (a + b) = 2 powi a * 2 powi b"
  by (simp add: power_int_add)

lemma two_powi_mono: "a \<le> b \<Longrightarrow> (2::real) powi a \<le> 2 powi b"
  by (simp add: power_int_increasing)

lemma two_powi_nat: "0 \<le> j \<Longrightarrow> (2::real) powi j = of_int (2 ^ nat j)"
  by (simp add: power_int_nonneg_exp)

lemma round_to_nearest:
  assumes p: "0 < p" and r: "representable p emin r"
  shows "\<bar>round_to p emin x - x\<bar> \<le> \<bar>r - x\<bar>"
proof (cases "x = 0")
  case True
  then show ?thesis by simp
next
  case False
  define e where "e = max (binade x) emin"
  define q where "q = quantum p emin x"
  have q: "q = 2 powi (e - int p + 1)" "0 < q"
    by (simp_all add: q_def e_def quantum_eq)
  have rt: "round_to p emin x = of_int (round_even (x / q)) * q"
    unfolding q_def by (rule round_to_step) (rule False)
  from r obtain m k where mk: "r = of_int m * 2 powi k" "\<bar>m\<bar> < 2 ^ p" "emin - int p + 1 \<le> k"
    unfolding representable_def by blast
  show ?thesis
  proof (cases "e - int p + 1 \<le> k")
    case True
    then have "(2::real) powi k = 2 powi (k - (e - int p + 1)) * q"
      unfolding q(1) by (simp flip: two_powi_add)
    also have "(2::real) powi (k - (e - int p + 1)) = of_int (2 ^ nat (k - (e - int p + 1)))"
      using True by (intro two_powi_nat) simp
    finally have "r = of_int (m * 2 ^ nat (k - (e - int p + 1))) * q"
      unfolding mk(1) by simp
    then show ?thesis
      unfolding rt using scaled_near [OF q(2), of x "m * 2 ^ nat (k - (e - int p + 1))"] by simp
  next
    case False
    then have k: "k + int p \<le> e" by simp
    with mk(3) have "emin < e" by linarith
    then have e: "e = binade x" unfolding e_def by simp
    have B: "2 powi e \<le> \<bar>x\<bar>"
      using binade_bounds(1) [OF \<open>x \<noteq> 0\<close>] e by simp
    have "\<bar>r\<bar> = of_int \<bar>m\<bar> * 2 powi k"
      unfolding mk(1) by (simp add: abs_mult)
    also have "\<dots> \<le> 2 ^ p * 2 powi k"
    proof (rule mult_right_mono)
      have "\<bar>m\<bar> \<le> 2 ^ p" using mk(2) by simp
      then have "(of_int \<bar>m\<bar> :: real) \<le> of_int (2 ^ p)" by (rule of_int_le_iff [THEN iffD2])
      then show "(of_int \<bar>m\<bar> :: real) \<le> 2 ^ p" by simp
    qed simp
    also have "\<dots> = 2 powi (int p + k)"
      by (simp add: two_powi_add)
    also have "\<dots> \<le> 2 powi e"
      using k by (intro two_powi_mono) simp
    finally have rB: "\<bar>r\<bar> \<le> 2 powi e" .
    have "(2::real) powi e = 2 powi (int (p - 1)) * q"
      unfolding q(1) using p by (simp flip: two_powi_add)
    then have Bq: "(2::real) powi e = of_int (2 ^ (p - 1)) * q"
      by simp
    show ?thesis
    proof (cases "0 < x")
      case True
      have "\<bar>of_int (round_even (x / q)) * q - x\<bar> \<le> \<bar>of_int (2 ^ (p - 1)) * q - x\<bar>"
        by (rule scaled_near) (rule q)
      also have "\<dots> = x - 2 powi e" using B True unfolding Bq [symmetric] by simp
      also have "\<dots> \<le> \<bar>r - x\<bar>" using rB by simp
      finally show ?thesis unfolding rt .
    next
      case False
      with \<open>x \<noteq> 0\<close> have neg: "x < 0" by simp
      have "\<bar>of_int (round_even (x / q)) * q - x\<bar> \<le> \<bar>of_int (- (2 ^ (p - 1))) * q - x\<bar>"
        by (rule scaled_near) (rule q)
      also have "of_int (- (2 ^ (p - 1))) * q = - (2 powi e)"
        unfolding Bq by simp
      also have "\<bar>- (2 powi e) - x\<bar> = - x - 2 powi e" using B neg by simp
      also have "\<dots> \<le> \<bar>r - x\<bar>" using rB by simp
      finally show ?thesis unfolding rt .
    qed
  qed
qed

lemma representable_0 [simp]: "representable p emin 0"
  unfolding representable_def
  by (rule exI [of _ 0], rule exI [of _ "emin - int p + 1"]) simp

lemma round_to_representable:
  assumes p: "0 < p"
  shows "representable p emin (round_to p emin x)"
proof (cases "x = 0")
  case True
  then show ?thesis by simp
next
  case False
  define e where "e = max (binade x) emin"
  define q where "q = quantum p emin x"
  define n where "n = round_even (x / q)"
  have q: "q = 2 powi (e - int p + 1)" "0 < q"
    by (simp_all add: q_def e_def quantum_eq)
  have rt: "round_to p emin x = of_int n * q"
    unfolding q_def n_def by (rule round_to_step) (rule False)
  have "\<bar>x\<bar> < 2 powi (binade x + 1)" by (rule binade_bounds) (rule False)
  also have "\<dots> \<le> 2 powi (e + 1)"
    unfolding e_def by (intro two_powi_mono) simp
  also have "\<dots> = 2 ^ p * q"
    unfolding q(1) by (simp flip: two_powi_add power_int_of_nat)
  finally have "\<bar>x\<bar> / q < 2 ^ p" using q(2) by (simp add: field_simps)
  then have "\<bar>x / q\<bar> < 2 ^ p" using q(2) by simp
  then have xq: "x / q \<le> 2 ^ p" "- (2 ^ p) \<le> x / q" by linarith+
  have "round_even (x / q) \<le> round_even (of_int (2 ^ p))"
    by (rule round_even_mono) (use xq in simp)
  moreover have "round_even (of_int (- (2 ^ p))) \<le> round_even (x / q)"
    by (rule round_even_mono) (use xq in simp)
  ultimately have n: "\<bar>n\<bar> \<le> 2 ^ p"
    unfolding n_def by (simp only: round_even_of_int)
  show ?thesis
  proof (cases "\<bar>n\<bar> < 2 ^ p")
    case True
    show ?thesis
      unfolding representable_def rt q(1)
      by (rule exI [of _ n], rule exI [of _ "e - int p + 1"]) (use True in \<open>simp add: e_def\<close>)
  next
    case False
    with n have np: "\<bar>n\<bar> = 2 ^ p" by simp
    from p obtain p' where p': "p = Suc p'" by (cases p) simp_all
    define m :: int where "m = (if 0 < n then 2 ^ p' else - (2 ^ p'))"
    have nm: "n = 2 * m" using np unfolding m_def p' by (simp add: abs_if split: if_splits)
    have m: "\<bar>m\<bar> < 2 ^ p" unfolding m_def p' by simp
    have "of_int n * q = of_int m * (2 * q)"
      unfolding nm by simp
    also have "2 * q = 2 powi (e - int p + 2)"
      unfolding q(1) using two_powi_add [of 1 "e - int p + 1"] by (simp add: algebra_simps)
    finally have "of_int n * q = of_int m * 2 powi (e - int p + 2)" .
    then show ?thesis
      unfolding representable_def rt
      by (intro exI [of _ m] exI [of _ "e - int p + 2"]) (simp add: e_def m)
  qed
qed

lemma round_to_representable_eq:
  assumes "0 < p" "representable p emin x"
  shows "round_to p emin x = x"
  using round_to_nearest [OF assms, of x] by simp

lemma round_to_idem: "0 < p \<Longrightarrow> round_to p emin (round_to p emin x) = round_to p emin x"
  by (rule round_to_representable_eq) (simp_all add: round_to_representable)

lemma round_to_mono:
  assumes p: "0 < p" and xy: "x \<le> y"
  shows "round_to p emin x \<le> round_to p emin y"
proof (rule ccontr)
  assume "\<not> ?thesis"
  then have lt: "round_to p emin y < round_to p emin x" by simp
  have 1: "\<bar>round_to p emin x - x\<bar> \<le> \<bar>round_to p emin y - x\<bar>"
    by (rule round_to_nearest [OF p round_to_representable [OF p]])
  have 2: "\<bar>round_to p emin y - y\<bar> \<le> \<bar>round_to p emin x - y\<bar>"
    by (rule round_to_nearest [OF p round_to_representable [OF p]])
  from 1 lt have "round_to p emin x + round_to p emin y \<le> 2 * x" by linarith
  moreover from 2 lt have "2 * y \<le> round_to p emin x + round_to p emin y" by linarith
  ultimately have "x = y" using xy by linarith
  with lt show False by simp
qed

lemma round_to_le:
  "0 < p \<Longrightarrow> representable p emin r \<Longrightarrow> x \<le> r \<Longrightarrow> round_to p emin x \<le> r"
  using round_to_mono [of p x r emin] by (simp add: round_to_representable_eq)

lemma round_to_ge:
  "0 < p \<Longrightarrow> representable p emin r \<Longrightarrow> r \<le> x \<Longrightarrow> r \<le> round_to p emin x"
  using round_to_mono [of p r x emin] by (simp add: round_to_representable_eq)

lemma round_to_nonneg: "0 < p \<Longrightarrow> 0 \<le> x \<Longrightarrow> 0 \<le> round_to p emin x"
  by (rule round_to_ge) simp_all

lemma round_to_nonpos: "0 < p \<Longrightarrow> x \<le> 0 \<Longrightarrow> round_to p emin x \<le> 0"
  by (rule round_to_le) simp_all

lemma round_to_error:
  "\<bar>round_to p emin x - x\<bar> \<le> quantum p emin x / 2"
proof (cases "x = 0")
  case True
  then show ?thesis using quantum_pos [of p emin 0] by (simp add: less_imp_le)
next
  case False
  show ?thesis
    unfolding round_to_step [OF False] by (rule scaled_half) simp
qed

lemma round_to_error_normal:
  assumes "x \<noteq> 0" "emin \<le> binade x"
  shows "\<bar>round_to p emin x - x\<bar> \<le> \<bar>x\<bar> / 2 ^ p"
proof -
  have "quantum p emin x = 2 powi (binade x + (1 - int p))"
    using assms(2) by (simp add: quantum_eq max_def algebra_simps)
  also have "\<dots> = 2 powi binade x * 2 powi (1 - int p)"
    by (rule two_powi_add)
  also have "(2::real) powi (1 - int p) = 2 / 2 ^ p"
    by (simp add: power_int_diff)
  finally have "quantum p emin x / 2 = 2 powi binade x / 2 ^ p" by simp
  also have "\<dots> \<le> \<bar>x\<bar> / 2 ^ p"
    using binade_bounds(1) [OF assms(1)] by (simp add: divide_right_mono)
  finally show ?thesis using round_to_error [of p emin x] by linarith
qed

lemma binade_minus [simp]: "binade (- x) = binade x"
  by (simp add: binade_def)

lemma round_to_minus: "round_to p emin (- x) = - round_to p emin x"
  by (simp add: round_to_def quantum_def round_even_minus)

lemma round_to_eval:
  assumes "2 powi e \<le> \<bar>x\<bar>" "\<bar>x\<bar> < 2 powi (e + 1)"
    and "q = 2 powi (max e emin - int p + 1)"
    and "\<bar>x / q - of_int n\<bar> < 1/2"
  shows "round_to p emin x = of_int n * q"
proof -
  have b: "binade x = e" using assms(1,2) by (rule binade_eqI)
  have "x \<noteq> 0" using assms(1) by (smt (verit) zero_less_power_int abs_zero)
  then show ?thesis
    using assms(3,4) by (simp add: round_to_step quantum_eq b round_even_eqI)
qed

lemma representable_int:
  "\<bar>n\<bar> < 2 ^ p \<Longrightarrow> emin - int p + 1 \<le> 0 \<Longrightarrow> representable p emin (of_int n)"
  unfolding representable_def by (intro exI [of _ n] exI [of _ 0]) simp

lemma representable_dyadic:
  "\<bar>n\<bar> < 2 ^ p \<Longrightarrow> emin - int p + 1 \<le> - int j \<Longrightarrow> representable p emin (of_int n / 2 ^ j)"
  unfolding representable_def
  by (intro exI [of _ n] exI [of _ "- int j"]) (simp add: power_int_minus field_simps)

lemma representable_wider:
  "p \<le> p' \<Longrightarrow> emin' - int p' \<le> emin - int p \<Longrightarrow> representable p emin x \<Longrightarrow>
   representable p' emin' x"
proof -
  assume a: "p \<le> p'" "emin' - int p' \<le> emin - int p" "representable p emin x"
  then obtain m k where mk: "x = of_int m * 2 powi k" "\<bar>m\<bar> < 2 ^ p" "emin - int p + 1 \<le> k"
    unfolding representable_def by blast
  have "(2::int) ^ p \<le> 2 ^ p'" using a(1) by (simp add: power_increasing)
  with mk(2) have "\<bar>m\<bar> < 2 ^ p'" by linarith
  moreover have "emin' - int p' + 1 \<le> k" using a(2) mk(3) by linarith
  ultimately show ?thesis unfolding representable_def using mk(1) by blast
qed

subsection \<open>Doubles and \<^verbatim>\<open>Float32\<close> values\<close>

lemma double_0 [simp]: "double 0 = 0"
  by (simp add: double_def)

lemma fround_0 [simp]: "fround 0 = 0"
  by (simp add: fround_def)

lemma double_mono: "x \<le> y \<Longrightarrow> double x \<le> double y"
  unfolding double_def by (rule round_to_mono) simp_all

lemma fround_mono: "x \<le> y \<Longrightarrow> fround x \<le> fround y"
  unfolding fround_def by (rule round_to_mono) simp_all

lemma double_nonneg: "0 \<le> x \<Longrightarrow> 0 \<le> double x"
  unfolding double_def by (rule round_to_nonneg) simp_all

lemma fround_nonneg: "0 \<le> x \<Longrightarrow> 0 \<le> fround x"
  unfolding fround_def by (rule round_to_nonneg) simp_all

lemma double_nonpos: "x \<le> 0 \<Longrightarrow> double x \<le> 0"
  unfolding double_def by (rule round_to_nonpos) simp_all

lemma fround_nonpos: "x \<le> 0 \<Longrightarrow> fround x \<le> 0"
  unfolding fround_def by (rule round_to_nonpos) simp_all

lemma double_minus: "double (- x) = - double x"
  by (simp add: double_def round_to_minus)

lemma fround_minus: "fround (- x) = - fround x"
  by (simp add: fround_def round_to_minus)

lemma double_idem [simp]: "double (double x) = double x"
  by (simp add: double_def round_to_idem)

lemma fround_idem [simp]: "fround (fround x) = fround x"
  by (simp add: fround_def round_to_idem)

lemma double_fround [simp]: "double (fround x) = fround x"
  unfolding double_def fround_def
  by (rule round_to_representable_eq, simp)
    (rule representable_wider [of 24 _ _ "- 126"], simp_all add: round_to_representable)

lemma double_of_representable: "representable 53 (- 1022) r \<Longrightarrow> double r = r"
  unfolding double_def by (rule round_to_representable_eq) simp_all

lemma fround_of_representable: "representable 24 (- 126) r \<Longrightarrow> fround r = r"
  unfolding fround_def by (rule round_to_representable_eq) simp_all

lemma double_representable: "representable 53 (- 1022) (double x)"
  unfolding double_def by (rule round_to_representable) simp

lemma fround_representable: "representable 24 (- 126) (fround x)"
  unfolding fround_def by (rule round_to_representable) simp

lemma double_le: "representable 53 (- 1022) r \<Longrightarrow> x \<le> r \<Longrightarrow> double x \<le> r"
  unfolding double_def by (rule round_to_le) simp_all

lemma double_ge: "representable 53 (- 1022) r \<Longrightarrow> r \<le> x \<Longrightarrow> r \<le> double x"
  unfolding double_def by (rule round_to_ge) simp_all

lemma fround_le: "representable 24 (- 126) r \<Longrightarrow> x \<le> r \<Longrightarrow> fround x \<le> r"
  unfolding fround_def by (rule round_to_le) simp_all

lemma fround_ge: "representable 24 (- 126) r \<Longrightarrow> r \<le> x \<Longrightarrow> r \<le> fround x"
  unfolding fround_def by (rule round_to_ge) simp_all

text \<open>A value that was rounded is a value of the format.\<close>

lemma double_le_double: "double r = r \<Longrightarrow> x \<le> r \<Longrightarrow> double x \<le> r"
  using double_mono [of x r] by simp

lemma double_ge_double: "double r = r \<Longrightarrow> r \<le> x \<Longrightarrow> r \<le> double x"
  using double_mono [of r x] by simp

lemma fround_le_fround: "fround r = r \<Longrightarrow> x \<le> r \<Longrightarrow> fround x \<le> r"
  using fround_mono [of x r] by simp

lemma fround_ge_fround: "fround r = r \<Longrightarrow> r \<le> x \<Longrightarrow> r \<le> fround x"
  using fround_mono [of r x] by simp

lemma double_fround_eq: "fround r = r \<Longrightarrow> double r = r"
  using double_fround [of r] by simp

text \<open>Integers and dyadic fractions with few bits are values of both formats.\<close>

lemma double_of_int: "\<bar>n\<bar> < 2 ^ 53 \<Longrightarrow> double (of_int n) = of_int n"
  by (rule double_of_representable) (simp add: representable_int)

lemma fround_of_int: "\<bar>n\<bar> < 2 ^ 24 \<Longrightarrow> fround (of_int n) = of_int n"
  by (rule fround_of_representable) (simp add: representable_int)

lemma double_dyadic: "\<bar>n\<bar> < 2 ^ 53 \<Longrightarrow> j \<le> 1074 \<Longrightarrow> double (of_int n / 2 ^ j) = of_int n / 2 ^ j"
  by (rule double_of_representable) (simp add: representable_dyadic)

lemma fround_dyadic: "\<bar>n\<bar> < 2 ^ 24 \<Longrightarrow> j \<le> 149 \<Longrightarrow> fround (of_int n / 2 ^ j) = of_int n / 2 ^ j"
  by (rule fround_of_representable) (simp add: representable_dyadic)

lemma double_numeral [simp]: "(numeral n :: int) < 2 ^ 53 \<Longrightarrow> double (numeral n) = numeral n"
  using double_of_int [of "numeral n"] by simp

lemma fround_numeral [simp]: "(numeral n :: int) < 2 ^ 24 \<Longrightarrow> fround (numeral n) = numeral n"
  using fround_of_int [of "numeral n"] by simp

lemma double_neg_numeral [simp]:
  "(numeral n :: int) < 2 ^ 53 \<Longrightarrow> double (- numeral n) = - numeral n"
  by (simp add: double_minus)

lemma fround_neg_numeral [simp]:
  "(numeral n :: int) < 2 ^ 24 \<Longrightarrow> fround (- numeral n) = - numeral n"
  by (simp add: fround_minus)

lemma double_1 [simp]: "double 1 = 1"
  using double_of_int [of 1] by simp

lemma fround_1 [simp]: "fround 1 = 1"
  using fround_of_int [of 1] by simp

lemma double_numeral_div_pow2:
  "(numeral n :: int) < 2 ^ 53 \<Longrightarrow> j \<le> 1074 \<Longrightarrow> double (numeral n / 2 ^ j) = numeral n / 2 ^ j"
  using double_dyadic [of "numeral n" j] by simp

lemma fround_numeral_div_pow2:
  "(numeral n :: int) < 2 ^ 24 \<Longrightarrow> j \<le> 149 \<Longrightarrow> fround (numeral n / 2 ^ j) = numeral n / 2 ^ j"
  using fround_dyadic [of "numeral n" j] by simp

text \<open>The evaluation of a rounding: for \<open>2 ^ e \<le> \<bar>x\<bar> < 2 ^ (e + 1)\<close> and an integer \<open>n\<close>
  within less than half a unit of \<open>x\<close> scaled by the spacing, the rounded value is \<open>n\<close>
  times the spacing.\<close>

lemma double_eval:
  assumes "2 powi e \<le> \<bar>x\<bar>" "\<bar>x\<bar> < 2 powi (e + 1)" "- 1022 \<le> e"
    and "\<bar>x / 2 powi (e - 52) - of_int n\<bar> < 1/2"
  shows "double x = of_int n * 2 powi (e - 52)"
  unfolding double_def
  by (rule round_to_eval [where e = e]) (use assms in \<open>simp_all add: max_def\<close>)

lemma fround_eval:
  assumes "2 powi e \<le> \<bar>x\<bar>" "\<bar>x\<bar> < 2 powi (e + 1)" "- 126 \<le> e"
    and "\<bar>x / 2 powi (e - 23) - of_int n\<bar> < 1/2"
  shows "fround x = of_int n * 2 powi (e - 23)"
  unfolding fround_def
  by (rule round_to_eval [where e = e]) (use assms in \<open>simp_all add: max_def\<close>)

text \<open>The same at a tie, where the rounding goes to the even neighbour.\<close>

lemma round_even_half: "round_even (of_int n + 1/2) = (if even n then n else n + 1)"
proof -
  have "\<lfloor>of_int n + 1/2 :: real\<rfloor> = n" by linarith
  then show ?thesis by (simp add: round_even_def Let_def)
qed

lemma round_to_eval_tie:
  assumes "2 powi e \<le> \<bar>x\<bar>" "\<bar>x\<bar> < 2 powi (e + 1)"
    and "q = 2 powi (max e emin - int p + 1)"
    and "x / q = of_int n + 1/2"
  shows "round_to p emin x = of_int (if even n then n else n + 1) * q"
proof -
  have b: "binade x = e" using assms(1,2) by (rule binade_eqI)
  have "0 < \<bar>x\<bar>" using assms(1) zero_less_power_int [of "2::real" e] by linarith
  then have "x \<noteq> 0" by simp
  then show ?thesis
    using assms(3,4) by (simp add: round_to_step quantum_eq b round_even_half)
qed

lemma double_eval_tie:
  assumes "2 powi e \<le> \<bar>x\<bar>" "\<bar>x\<bar> < 2 powi (e + 1)" "- 1022 \<le> e"
    and "x / 2 powi (e - 52) = of_int n + 1/2"
  shows "double x = of_int (if even n then n else n + 1) * 2 powi (e - 52)"
  unfolding double_def
  by (rule round_to_eval_tie [where e = e]) (use assms in \<open>simp_all add: max_def\<close>)

lemma fround_eval_tie:
  assumes "2 powi e \<le> \<bar>x\<bar>" "\<bar>x\<bar> < 2 powi (e + 1)" "- 126 \<le> e"
    and "x / 2 powi (e - 23) = of_int n + 1/2"
  shows "fround x = of_int (if even n then n else n + 1) * 2 powi (e - 23)"
  unfolding fround_def
  by (rule round_to_eval_tie [where e = e]) (use assms in \<open>simp_all add: max_def\<close>)

text \<open>The error of a rounding, relative to the argument and, for the subnormal
  numbers, absolute.\<close>

lemma round_to_error_bound:
  "\<bar>round_to p emin x - x\<bar> \<le> \<bar>x\<bar> / 2 ^ p + 2 powi (emin - int p)"
proof (cases "x \<noteq> 0 \<and> emin \<le> binade x")
  case True
  then have "\<bar>round_to p emin x - x\<bar> \<le> \<bar>x\<bar> / 2 ^ p"
    by (simp add: round_to_error_normal)
  moreover have "0 \<le> (2::real) powi (emin - int p)" by simp
  ultimately show ?thesis by linarith
next
  case False
  show ?thesis
  proof (cases "x = 0")
    case True
    then show ?thesis by simp
  next
    case nz: False
    with False have "binade x < emin" by simp
    then have "quantum p emin x = 2 powi (emin - int p + 1)"
      by (simp add: quantum_eq max_def)
    also have "\<dots> = 2 powi (emin - int p) * 2"
      using two_powi_add [of "emin - int p" 1] by simp
    finally have "quantum p emin x / 2 = 2 powi (emin - int p)" by simp
    then have "\<bar>round_to p emin x - x\<bar> \<le> 2 powi (emin - int p)"
      using round_to_error [of p emin x] by simp
    moreover have "0 \<le> \<bar>x\<bar> / 2 ^ p" by simp
    ultimately show ?thesis by linarith
  qed
qed

lemma double_error: "\<bar>double x - x\<bar> \<le> \<bar>x\<bar> / 2 ^ 53 + 2 powi (- 1075)"
  unfolding double_def using round_to_error_bound [of 53 "- 1022" x] by simp

lemma fround_error: "\<bar>fround x - x\<bar> \<le> \<bar>x\<bar> / 2 ^ 24 + 2 powi (- 150)"
  unfolding fround_def using round_to_error_bound [of 24 "- 126" x] by simp

subsection \<open>The simulation step, particle by particle\<close>

lemma rand_uniform:
  "rand mn mx st = (uniform mn mx (rng st (rngPos st)), st\<lparr>rngPos := Suc (rngPos st)\<rparr>)"
  by (simp add: rand_def uniform_def)

lemma resetTop_unfold:
  "resetTop i st = st\<lparr> posY := (posY st)[i := fround (- (size_arr st ! i))],
       rngPos := Suc (Suc (rngPos st)),
       posX := (posX st)[i := fround (uniform 0 (width st) (rng st (rngPos st)))],
       originX := (originX st)[i := fround (uniform 0 (width st) (rng st (rngPos st)))],
       dx := (dx st)[i := fround (uniform 0 TWO_PI (rng st (Suc (rngPos st))))] \<rparr>"
  by (simp add: resetTop_def rand_uniform Let_def)

lemma particle_of_resetTop_other:
  "j \<noteq> i \<Longrightarrow> particle_of (resetTop i st) j = particle_of st j"
  by (simp add: resetTop_unfold particle_of_def)

lemma particle_of_resetTop_self:
  "store_ok st \<Longrightarrow> i < length (posY st) \<Longrightarrow>
   particle_of (resetTop i st) i =
     recycle_particle (width st) (rng st (rngPos st)) (rng st (Suc (rngPos st))) (particle_of st i)"
  by (simp add: resetTop_unfold particle_of_def recycle_particle_def store_ok_def)

lemma resetTop_frame:
  "size_arr (resetTop i st) = size_arr st" "amplitude (resetTop i st) = amplitude st"
  "velX (resetTop i st) = velX st" "velY (resetTop i st) = velY st"
  "width (resetTop i st) = width st" "height (resetTop i st) = height st"
  "rng (resetTop i st) = rng st" "rngPos (resetTop i st) = Suc (Suc (rngPos st))"
  "config (resetTop i st) = config st" "particleCount (resetTop i st) = particleCount st"
  "dprOverride (resetTop i st) = dprOverride st" "dpr (resetTop i st) = dpr st"
  "devicePixelRatio (resetTop i st) = devicePixelRatio st"
  "frameTimeAvg (resetTop i st) = frameTimeAvg st"
  "perfCooldownFrames (resetTop i st) = perfCooldownFrames st"
  "ctxLog (resetTop i st) = ctxLog st" "running (resetTop i st) = running st"
  "lastTime (resetTop i st) = lastTime st"
  by (simp_all add: resetTop_unfold)

lemma resetTop_lengths:
  "length (posX (resetTop i st)) = length (posX st)" "length (posY (resetTop i st)) = length (posY st)"
  "length (originX (resetTop i st)) = length (originX st)" "length (dx (resetTop i st)) = length (dx st)"
  by (simp_all add: resetTop_unfold)

lemma store_ok_resetTop: "store_ok st \<Longrightarrow> store_ok (resetTop i st)"
  by (simp add: store_ok_def resetTop_frame resetTop_lengths)

lemma update_particle_moved:
  "update_particle dt i st =
     (if length (posY st) \<le> i then st
      else if double (posY (moved dt i st) ! i - size_arr (moved dt i st) ! i) > height (moved dt i st)
           then resetTop i (moved dt i st) else moved dt i st)"
  by (simp add: update_particle_def moved_def Let_def)

lemma moved_frame:
  "size_arr (moved dt i st) = size_arr st" "amplitude (moved dt i st) = amplitude st"
  "velX (moved dt i st) = velX st" "velY (moved dt i st) = velY st"
  "originX (moved dt i st) = originX st"
  "width (moved dt i st) = width st" "height (moved dt i st) = height st"
  "rng (moved dt i st) = rng st" "rngPos (moved dt i st) = rngPos st"
  "config (moved dt i st) = config st" "particleCount (moved dt i st) = particleCount st"
  "dprOverride (moved dt i st) = dprOverride st" "dpr (moved dt i st) = dpr st"
  "devicePixelRatio (moved dt i st) = devicePixelRatio st"
  "frameTimeAvg (moved dt i st) = frameTimeAvg st"
  "perfCooldownFrames (moved dt i st) = perfCooldownFrames st"
  "ctxLog (moved dt i st) = ctxLog st" "running (moved dt i st) = running st"
  "lastTime (moved dt i st) = lastTime st"
  "length (posX (moved dt i st)) = length (posX st)" "length (posY (moved dt i st)) = length (posY st)"
  "length (dx (moved dt i st)) = length (dx st)"
  by (simp_all add: moved_def Let_def)

lemma store_ok_moved: "store_ok st \<Longrightarrow> store_ok (moved dt i st)"
  by (simp add: store_ok_def moved_frame)

lemma particle_of_moved_other:
  "j \<noteq> i \<Longrightarrow> particle_of (moved dt i st) j = particle_of st j"
  by (simp add: moved_def particle_of_def Let_def)

lemma particle_of_moved_self:
  "store_ok st \<Longrightarrow> i < length (posY st) \<Longrightarrow>
   particle_of (moved dt i st) i = move_particle dt (particle_of st i)"
  by (simp add: moved_def particle_of_def move_particle_def Let_def store_ok_def)

lemma particle_of_update_particle_other:
  "j \<noteq> i \<Longrightarrow> particle_of (update_particle dt i st) j = particle_of st j"
  by (simp add: update_particle_moved particle_of_resetTop_other particle_of_moved_other)

lemma particle_of_sel:
  "p_posX (particle_of st i) = posX st ! i" "p_posY (particle_of st i) = posY st ! i"
  "p_originX (particle_of st i) = originX st ! i" "p_dx (particle_of st i) = dx st ! i"
  "p_size (particle_of st i) = size_arr st ! i" "p_amplitude (particle_of st i) = amplitude st ! i"
  "p_velX (particle_of st i) = velX st ! i" "p_velY (particle_of st i) = velY st ! i"
  by (simp_all add: particle_of_def)

lemma update_particle_cases:
  assumes "store_ok st" "i < length (posY st)"
  shows "update_particle dt i st =
     (if recycled dt st i then resetTop i (moved dt i st) else moved dt i st)"
proof -
  have "past_bottom (height st) (move_particle dt (particle_of st i)) \<longleftrightarrow>
      double (posY (moved dt i st) ! i - size_arr (moved dt i st) ! i) > height (moved dt i st)"
    unfolding particle_of_moved_self [OF assms, symmetric]
    by (simp add: past_bottom_def particle_of_sel moved_frame)
  then show ?thesis
    using assms(2) by (simp add: update_particle_moved recycled_def)
qed

lemma particle_of_update_particle_self:
  assumes "store_ok st" "i < length (posY st)"
  shows "particle_of (update_particle dt i st) i =
     advance_particle dt (width st) (height st) (rng st (rngPos st)) (rng st (Suc (rngPos st)))
       (particle_of st i)"
proof -
  have m: "store_ok (moved dt i st)" "i < length (posY (moved dt i st))"
    using assms by (simp_all add: store_ok_moved moved_frame)
  show ?thesis
    unfolding update_particle_cases [OF assms] advance_particle_def
    using assms(2)
    by (simp add: recycled_def particle_of_resetTop_self [OF m] particle_of_moved_self [OF assms]
        moved_frame)
qed

lemma rngPos_update_particle:
  assumes "store_ok st"
  shows "rngPos (update_particle dt i st) = rngPos st + (if recycled dt st i then 2 else 0)"
proof (cases "i < length (posY st)")
  case True
  show ?thesis
    unfolding update_particle_cases [OF assms True] by (simp add: resetTop_frame moved_frame)
next
  case False
  then show ?thesis by (simp add: update_particle_moved recycled_def)
qed

lemma update_particle_frame:
  "size_arr (update_particle dt i st) = size_arr st" "amplitude (update_particle dt i st) = amplitude st"
  "velX (update_particle dt i st) = velX st" "velY (update_particle dt i st) = velY st"
  "width (update_particle dt i st) = width st" "height (update_particle dt i st) = height st"
  "rng (update_particle dt i st) = rng st"
  "config (update_particle dt i st) = config st" "particleCount (update_particle dt i st) = particleCount st"
  "dprOverride (update_particle dt i st) = dprOverride st" "dpr (update_particle dt i st) = dpr st"
  "devicePixelRatio (update_particle dt i st) = devicePixelRatio st"
  "frameTimeAvg (update_particle dt i st) = frameTimeAvg st"
  "perfCooldownFrames (update_particle dt i st) = perfCooldownFrames st"
  "ctxLog (update_particle dt i st) = ctxLog st" "running (update_particle dt i st) = running st"
  "lastTime (update_particle dt i st) = lastTime st"
  "length (posY (update_particle dt i st)) = length (posY st)"
  by (simp_all add: update_particle_moved resetTop_frame resetTop_lengths moved_frame)

lemma store_ok_update_particle: "store_ok st \<Longrightarrow> store_ok (update_particle dt i st)"
  by (simp add: update_particle_moved store_ok_resetTop store_ok_moved)

lemma particle_of_fold_notin:
  "i \<notin> set js \<Longrightarrow> particle_of (fold (update_particle dt) js st) i = particle_of st i"
  by (induction js arbitrary: st) (simp_all add: particle_of_update_particle_other)

lemma fold_update_frame:
  "width (fold (update_particle dt) js st) = width st"
  "height (fold (update_particle dt) js st) = height st"
  "rng (fold (update_particle dt) js st) = rng st"
  "config (fold (update_particle dt) js st) = config st"
  "particleCount (fold (update_particle dt) js st) = particleCount st"
  "dprOverride (fold (update_particle dt) js st) = dprOverride st"
  "dpr (fold (update_particle dt) js st) = dpr st"
  "devicePixelRatio (fold (update_particle dt) js st) = devicePixelRatio st"
  "frameTimeAvg (fold (update_particle dt) js st) = frameTimeAvg st"
  "perfCooldownFrames (fold (update_particle dt) js st) = perfCooldownFrames st"
  "ctxLog (fold (update_particle dt) js st) = ctxLog st"
  "running (fold (update_particle dt) js st) = running st"
  "lastTime (fold (update_particle dt) js st) = lastTime st"
  "length (posY (fold (update_particle dt) js st)) = length (posY st)"
  "size_arr (fold (update_particle dt) js st) = size_arr st"
  "amplitude (fold (update_particle dt) js st) = amplitude st"
  "velX (fold (update_particle dt) js st) = velX st"
  "velY (fold (update_particle dt) js st) = velY st"
  by (induction js arbitrary: st; simp add: update_particle_frame)+

lemma store_ok_fold: "store_ok st \<Longrightarrow> store_ok (fold (update_particle dt) js st)"
  by (induction js arbitrary: st) (simp_all add: store_ok_update_particle)

lemma recycled_cong:
  "particle_of s i = particle_of st i \<Longrightarrow> height s = height st \<Longrightarrow>
   length (posY s) = length (posY st) \<Longrightarrow> recycled dt s i = recycled dt st i"
  by (simp add: recycled_def)

lemma draws_before_Suc:
  "draws_before dt st (Suc n) = draws_before dt st n + (if recycled dt st n then 2 else 0)"
  by (simp add: draws_before_def)

lemma draws_before_mono: "i \<le> n \<Longrightarrow> draws_before dt st i \<le> draws_before dt st n"
  by (induction n) (auto simp add: draws_before_Suc le_Suc_eq)

lemma draws_before_recycled:
  "j < i \<Longrightarrow> recycled dt st j \<Longrightarrow> draws_before dt st j + 2 \<le> draws_before dt st i"
  using draws_before_mono [of "Suc j" i dt st] by (simp add: draws_before_Suc)

text \<open>The state after the first \<open>n\<close> rounds of the loop of \<^verbatim>\<open>update\<close>: the read
  position of the random stream has moved by two for every recycled particle, the
  particles from \<open>n\<close> on are untouched, and every particle before \<open>n\<close> has been advanced,
  a recycled one with the two draws that were next when its round began.\<close>

lemma fold_update_upt:
  assumes ok: "store_ok st"
  shows "rngPos (fold (update_particle dt) [0..<n] st) = rngPos st + draws_before dt st n
    \<and> (\<forall>i. i < n \<longrightarrow> i < length (posY st) \<longrightarrow>
          particle_of (fold (update_particle dt) [0..<n] st) i =
            advance_particle dt (width st) (height st)
              (rng st (rngPos st + draws_before dt st i))
              (rng st (Suc (rngPos st + draws_before dt st i))) (particle_of st i))"
proof (induction n)
  case 0
  show ?case by (simp add: draws_before_def)
next
  case (Suc n)
  let ?s = "fold (update_particle dt) [0..<n] st"
  have s_ok: "store_ok ?s" using ok by (rule store_ok_fold)
  have pn: "particle_of ?s n = particle_of st n"
    by (rule particle_of_fold_notin) simp
  have rc: "recycled dt ?s n = recycled dt st n"
    by (rule recycled_cong) (simp_all add: pn fold_update_frame)
  have f: "fold (update_particle dt) [0..<Suc n] st = update_particle dt n ?s"
    by simp
  have pos: "rngPos (update_particle dt n ?s) = rngPos st + draws_before dt st (Suc n)"
    using Suc.IH by (simp add: rngPos_update_particle [OF s_ok] rc draws_before_Suc)
  have part: "particle_of (update_particle dt n ?s) i =
      advance_particle dt (width st) (height st)
        (rng st (rngPos st + draws_before dt st i))
        (rng st (Suc (rngPos st + draws_before dt st i))) (particle_of st i)"
    if "i < Suc n" "i < length (posY st)" for i
  proof (cases "i = n")
    case True
    have len: "n < length (posY ?s)" using that(2) True by (simp add: fold_update_frame)
    show ?thesis
      unfolding True particle_of_update_particle_self [OF s_ok len]
      using Suc.IH by (simp add: fold_update_frame pn)
  next
    case False
    with that(1) have "i < n" by simp
    then show ?thesis
      using Suc.IH that(2) False by (simp add: particle_of_update_particle_other)
  qed
  show ?case unfolding f using pos part by blast
qed

lemma less_nat_ceiling: "i < nat \<lceil>c::real\<rceil> \<longleftrightarrow> real i < c"
proof -
  have "i < nat \<lceil>c\<rceil> \<longleftrightarrow> int i < \<lceil>c\<rceil>" by arith
  also have "\<dots> \<longleftrightarrow> of_int (int i) < c" by (rule less_ceiling_iff)
  finally show ?thesis by simp
qed

lemma particle_of_update:
  assumes "store_ok st" "i < length (posY st)"
  shows "particle_of (update dt st) i =
     (if real i < particleCount st
      then advance_particle dt (width st) (height st)
             (rng st (rngPos st + draws_before dt st i))
             (rng st (Suc (rngPos st + draws_before dt st i))) (particle_of st i)
      else particle_of st i)"
proof (cases "real i < particleCount st")
  case True
  then have "i < nat \<lceil>particleCount st\<rceil>"
    by (simp add: less_nat_ceiling)
  with fold_update_upt [OF assms(1), of dt "nat \<lceil>particleCount st\<rceil>"] assms(2) True
  show ?thesis by (simp add: update_def)
next
  case False
  then have "i \<notin> set [0..<nat \<lceil>particleCount st\<rceil>]"
    by (simp add: less_nat_ceiling)
  then show ?thesis using False by (simp add: update_def particle_of_fold_notin)
qed

lemma update_nth:
  assumes "store_ok st" "i < length (posY st)" "real i < particleCount st"
  shows "particle_of (update dt st) i =
     advance_particle dt (width st) (height st)
       (rng st (rngPos st + draws_before dt st i))
       (rng st (Suc (rngPos st + draws_before dt st i))) (particle_of st i)"
  using particle_of_update [OF assms(1,2), of dt] assms(3) by simp

lemma rngPos_update:
  "store_ok st \<Longrightarrow>
   rngPos (update dt st) = rngPos st + draws_before dt st (nat \<lceil>particleCount st\<rceil>)"
  using fold_update_upt [of st dt "nat \<lceil>particleCount st\<rceil>"] by (simp add: update_def)

lemma update_frame:
  "width (update dt st) = width st" "height (update dt st) = height st"
  "rng (update dt st) = rng st" "config (update dt st) = config st"
  "particleCount (update dt st) = particleCount st"
  "dprOverride (update dt st) = dprOverride st" "dpr (update dt st) = dpr st"
  "devicePixelRatio (update dt st) = devicePixelRatio st"
  "frameTimeAvg (update dt st) = frameTimeAvg st"
  "perfCooldownFrames (update dt st) = perfCooldownFrames st"
  "ctxLog (update dt st) = ctxLog st" "running (update dt st) = running st"
  "lastTime (update dt st) = lastTime st"
  "length (posY (update dt st)) = length (posY st)"
  "size_arr (update dt st) = size_arr st" "amplitude (update dt st) = amplitude st"
  "velX (update dt st) = velX st" "velY (update dt st) = velY st"
  by (simp_all add: update_def fold_update_frame)

lemma store_ok_update: "store_ok st \<Longrightarrow> store_ok (update dt st)"
  by (simp add: update_def store_ok_fold)

subsection \<open>Arithmetic with values that may not be finite\<close>

lemma representable_pow: "representable 53 (- 1022) (2 ^ 1023)" "representable 53 (- 1022) (- (2 ^ 1023))"
proof -
  show "representable 53 (- 1022) (2 ^ 1023)"
    unfolding representable_def by (intro exI [of _ 1] exI [of _ 1023]) simp
  show "representable 53 (- 1022) (- (2 ^ 1023))"
    unfolding representable_def by (intro exI [of _ "- 1"] exI [of _ 1023]) simp
qed

lemma to_dnum_fin: "\<bar>x\<bar> \<le> 2 ^ 1023 \<Longrightarrow> to_dnum x = Fin (double x)"
proof -
  assume a: "\<bar>x\<bar> \<le> 2 ^ 1023"
  have "double x \<le> 2 ^ 1023" by (rule double_le [OF representable_pow(1)]) (use a in simp)
  moreover have "- (2 ^ 1023) \<le> double x" by (rule double_ge [OF representable_pow(2)]) (use a in linarith)
  moreover have "(2::real) ^ 1023 < 2 ^ 1024" by simp
  ultimately show ?thesis unfolding to_dnum_def by (simp del: power_strict_increasing_iff)
qed

lemma to_dnum_cases:
  "to_dnum x = PInf \<and> 0 < x \<or> to_dnum x = NInf \<and> x < 0 \<or> to_dnum x = Fin (double x)"
proof -
  have "0 < x" if "2 ^ 1024 \<le> double x"
  proof (rule ccontr)
    assume "\<not> 0 < x"
    then have "double x \<le> 0" by (intro double_nonpos) simp
    with that show False by (smt (verit) zero_less_power)
  qed
  moreover have "x < 0" if "double x \<le> - (2 ^ 1024)"
  proof (rule ccontr)
    assume "\<not> x < 0"
    then have "0 \<le> double x" by (intro double_nonneg) simp
    with that show False by (smt (verit) zero_less_power)
  qed
  ultimately show ?thesis unfolding to_dnum_def by auto
qed

lemma to_dnum_not_nan [simp]: "to_dnum x \<noteq> DNaN"
  by (simp add: to_dnum_def)

lemma dle_refl: "a \<noteq> DNaN \<Longrightarrow> dle a a"
  by (cases a) simp_all

lemma dle_PInf [simp]: "dle a PInf \<longleftrightarrow> a \<noteq> DNaN"
  by (cases a) simp_all

lemma dle_NInf [simp]: "dle NInf b \<longleftrightarrow> b \<noteq> DNaN"
  by (cases b) simp_all


lemma to_dnum_nonneg: "0 \<le> x \<Longrightarrow> nonneg_d (to_dnum x)"
  using to_dnum_cases [of x] double_nonneg [of x] by auto

lemma to_dnum_nonpos: "x \<le> 0 \<Longrightarrow> nonpos_d (to_dnum x)"
  using to_dnum_cases [of x] double_nonpos [of x] by auto

lemma dmul_nonneg: "nonneg_d a \<Longrightarrow> 0 < c \<Longrightarrow> nonneg_d (dmul a (Fin c))"
  by (cases a) (simp_all add: to_dnum_nonneg)

lemma dmul_nonpos: "nonpos_d a \<Longrightarrow> 0 < c \<Longrightarrow> nonpos_d (dmul a (Fin c))"
  by (cases a) (simp_all add: to_dnum_nonpos mult_nonpos_nonneg)



lemma dfloor_nonneg: "nonneg_d a \<Longrightarrow> nonneg_d (dfloor a)"
  by (cases a) simp_all




subsection \<open>Density model\<close>

lemma baseArea [simp]: "double (BASE_WIDTH * BASE_HEIGHT) = 2073600"
  by (simp add: BASE_WIDTH_def BASE_HEIGHT_def)

lemma gdac_degenerate: "w \<le> 0 \<or> h \<le> 0 \<Longrightarrow> getDensityAdjustedCount st w h = Num 0"
  by (simp add: getDensityAdjustedCount_def)

lemma gdac_estimate:
  "0 < w \<Longrightarrow> 0 < h \<Longrightarrow>
   getDensityAdjustedCount st w h = clamp_count (maxParticles (config st)) (dfloor (estimate st w h))"
  by (simp add: getDensityAdjustedCount_def estimate_def Let_def)

lemma gdac_cong:
  assumes "config s = config t" "dprOverride s = dprOverride t"
    "devicePixelRatio s = devicePixelRatio t"
  shows "getDensityAdjustedCount s w h = getDensityAdjustedCount t w h"
proof -
  have "getTargetDpr s = getTargetDpr t"
    unfolding getTargetDpr_def assms ..
  then show ?thesis
    unfolding getDensityAdjustedCount_def assms(1) by (simp only:)
qed

lemma density_nonneg:
  "0 \<le> amount (config st) \<Longrightarrow> nonneg_d (ddiv (amount (config st)) (double (BASE_WIDTH * BASE_HEIGHT)))"
  by (simp add: ddiv_def to_dnum_nonneg)

lemma density_nonpos:
  "amount (config st) \<le> 0 \<Longrightarrow> nonpos_d (ddiv (amount (config st)) (double (BASE_WIDTH * BASE_HEIGHT)))"
  by (simp add: ddiv_def to_dnum_nonpos divide_nonpos_pos)

text \<open>The factor \<^verbatim>\<open>1 / this.getTargetDpr()\<close> of a positive normal scale is a positive
  finite number, and it does not grow with the scale.\<close>

lemma normal_scale_pos: "normal_scale s \<Longrightarrow> 0 < s"
proof -
  assume "normal_scale s"
  then have "2 powi (- 1022) \<le> s" by (simp add: normal_scale_def)
  moreover have "(0::real) < 2 powi (- 1022)" by (rule zero_less_power_int) simp
  ultimately show ?thesis by linarith
qed

lemma dprFactor_normal:
  assumes "normal_scale s"
  shows "ddiv 1 s = Fin (double (1 / s))" "0 < double (1 / s)"
proof -
  have s: "2 powi (- 1022) \<le> s" "s \<le> 2 ^ 1024" using assms by (simp_all add: normal_scale_def)
  have p: "(0::real) < 2 powi (- 1022)" by (rule zero_less_power_int) simp
  have pos: "0 < s" using assms by (rule normal_scale_pos)
  have "1 / s \<le> 1 / 2 powi (- 1022)" using frac_le [of 1 1 "2 powi (- 1022)" s] s(1) p by simp
  also have "\<dots> = 2 powi 1022"
    by (simp only: power_int_minus inverse_eq_divide divide_divide_eq_right mult_1 div_by_1)
  also have "\<dots> \<le> 2 powi 1023" by (rule two_powi_mono) simp
  also have "(2::real) powi 1023 = 2 ^ 1023" by (rule power_int_numeral)
  finally have "\<bar>1 / s\<bar> \<le> 2 ^ 1023" using pos by simp
  then have "to_dnum (1 / s) = Fin (double (1 / s))" by (rule to_dnum_fin)
  then show "ddiv 1 s = Fin (double (1 / s))"
    using pos by (simp add: ddiv_def)
  have r: "representable 53 (- 1022) (2 powi (- 1024))"
    unfolding representable_def by (intro exI [of _ 1] exI [of _ "- 1024"]) simp
  have "1 / 2 ^ 1024 \<le> 1 / s" using frac_le [of 1 1 s "2 ^ 1024"] s(2) pos by simp
  moreover have "1 / (2::real) ^ 1024 = 2 powi (- 1024)"
    by (simp only: power_int_minus power_int_numeral inverse_eq_divide)
  ultimately have "2 powi (- 1024) \<le> 1 / s" by simp
  then have "2 powi (- 1024) \<le> double (1 / s)" by (rule double_ge [OF r])
  moreover have "(0::real) < 2 powi (- 1024)" by (rule zero_less_power_int) simp
  ultimately show "0 < double (1 / s)" by linarith
qed

lemma estimate_nonneg:
  assumes "0 < w" "0 < h" "0 \<le> amount (config st)" "normal_scale (getTargetDpr st)"
  shows "nonneg_d (estimate st w h)"
  unfolding estimate_def dprFactor_normal(1) [OF assms(4)]
  by (intro dmul_nonneg density_nonneg assms dprFactor_normal(2))

lemma estimate_nonpos:
  assumes "0 < w" "0 < h" "amount (config st) \<le> 0" "normal_scale (getTargetDpr st)"
  shows "nonpos_d (estimate st w h)"
  unfolding estimate_def dprFactor_normal(1) [OF assms(4)]
  by (intro dmul_nonpos density_nonpos assms dprFactor_normal(2))


text \<open>The evaluation of the product, one rounding at a time.\<close>

lemma to_dnum_eval: "double x = r \<Longrightarrow> \<bar>r\<bar> < 2 ^ 1024 \<Longrightarrow> to_dnum x = Fin r"
  by (auto simp add: to_dnum_def)

lemma estimate_eval:
  assumes "amount (config st) = a" "getTargetDpr st = s" "s \<noteq> 0"
    and "double (a / 2073600) = d" "\<bar>d\<bar> < 2 ^ 1024"
    and "double (1 / s) = f" "\<bar>f\<bar> < 2 ^ 1024"
    and "double (d * w) = p1" "\<bar>p1\<bar> < 2 ^ 1024"
    and "double (p1 * h) = p2" "\<bar>p2\<bar> < 2 ^ 1024"
    and "double (p2 * f) = p3" "\<bar>p3\<bar> < 2 ^ 1024"
  shows "estimate st w h = Fin p3"
proof -
  have "ddiv (amount (config st)) (double (BASE_WIDTH * BASE_HEIGHT)) = Fin d"
    using assms(4,5) by (simp add: ddiv_def assms(1) to_dnum_eval)
  moreover have "ddiv 1 (getTargetDpr st) = Fin f"
    using assms(3,6,7) by (simp add: ddiv_def assms(2) to_dnum_eval)
  moreover have "dmul (Fin d) (Fin w) = Fin p1" using assms(8,9) by (simp add: to_dnum_eval)
  moreover have "dmul (Fin p1) (Fin h) = Fin p2" using assms(10,11) by (simp add: to_dnum_eval)
  moreover have "dmul (Fin p2) (Fin f) = Fin p3" using assms(12,13) by (simp add: to_dnum_eval)
  ultimately show ?thesis by (simp add: estimate_def)
qed

text \<open>The factors, products and counts of the default configuration (amount 5000, at
  most 4000 particles) at the sizes and scales used below, one rounding at a time.\<close>

lemma density_5000: "double (5000 / 2073600) = 5559999539963575 / 2305843009213693952"
  using double_eval [of "- 9" "5000 / 2073600" 5559999539963575] by simp

lemma factor_1: "double (1 / 1) = 1"
  by simp

lemma factor_2: "double (1 / 2) = 1 / 2"
  using double_eval [of "- 1" "1 / 2" 4503599627370496] by simp

lemma factor_5_4: "double (1 / (5 / 4)) = 3602879701896397 / 4503599627370496"
  using double_eval [of "- 1" "1 / (5 / 4)" 7205759403792794] by simp

lemma product_40_26_1:
  "double (5559999539963575 / 2305843009213693952 * 40) = 6949999424954469 / 72057594037927936"
  "double (6949999424954469 / 72057594037927936 * 26) = 2823437266387753 / 1125899906842624"
  "double (2823437266387753 / 1125899906842624 * 1) = 2823437266387753 / 1125899906842624"
proof -
  show "double (5559999539963575 / 2305843009213693952 * 40) = 6949999424954469 / 72057594037927936"
    using double_eval [of "- 4" "5559999539963575 / 2305843009213693952 * 40" 6949999424954469] by simp
  show "double (6949999424954469 / 72057594037927936 * 26) = 2823437266387753 / 1125899906842624"
    using double_eval [of 1 "6949999424954469 / 72057594037927936 * 26" 5646874532775506] by simp
  show "double (2823437266387753 / 1125899906842624 * 1) = 2823437266387753 / 1125899906842624"
    using double_eval [of 1 "2823437266387753 / 1125899906842624 * 1" 5646874532775506] by simp
qed

lemma estimate_40_26_1:
  assumes "amount (config st) = 5000" "getTargetDpr st = 1"
  shows "estimate st 40 26 = Fin (2823437266387753 / 1125899906842624)"
  by (rule estimate_eval [OF assms _ density_5000 _ factor_1 _ product_40_26_1(1) _ product_40_26_1(2) _ product_40_26_1(3)]) simp_all

lemma gdac_40_26_1:
  assumes "amount (config st) = 5000" "maxParticles (config st) = 4000" "getTargetDpr st = 1"
  shows "getDensityAdjustedCount st 40 26 = Num 2"
  by (simp add: gdac_estimate estimate_40_26_1 [OF assms(1,3)] assms(2))

lemma product_40_26_2:
  "double (5559999539963575 / 2305843009213693952 * 40) = 6949999424954469 / 72057594037927936"
  "double (6949999424954469 / 72057594037927936 * 26) = 2823437266387753 / 1125899906842624"
  "double (2823437266387753 / 1125899906842624 * (1 / 2)) = 2823437266387753 / 2251799813685248"
proof -
  show "double (5559999539963575 / 2305843009213693952 * 40) = 6949999424954469 / 72057594037927936"
    using double_eval [of "- 4" "5559999539963575 / 2305843009213693952 * 40" 6949999424954469] by simp
  show "double (6949999424954469 / 72057594037927936 * 26) = 2823437266387753 / 1125899906842624"
    using double_eval [of 1 "6949999424954469 / 72057594037927936 * 26" 5646874532775506] by simp
  show "double (2823437266387753 / 1125899906842624 * (1 / 2)) = 2823437266387753 / 2251799813685248"
    using double_eval [of 0 "2823437266387753 / 1125899906842624 * (1 / 2)" 5646874532775506] by simp
qed

lemma estimate_40_26_2:
  assumes "amount (config st) = 5000" "getTargetDpr st = 2"
  shows "estimate st 40 26 = Fin (2823437266387753 / 2251799813685248)"
  by (rule estimate_eval [OF assms _ density_5000 _ factor_2 _ product_40_26_2(1) _ product_40_26_2(2) _ product_40_26_2(3)]) simp_all

lemma gdac_40_26_2:
  assumes "amount (config st) = 5000" "maxParticles (config st) = 4000" "getTargetDpr st = 2"
  shows "getDensityAdjustedCount st 40 26 = Num 1"
  by (simp add: gdac_estimate estimate_40_26_2 [OF assms(1,3)] assms(2))

lemma product_10_10_2:
  "double (5559999539963575 / 2305843009213693952 * 10) = 6949999424954469 / 288230376151711744"
  "double (6949999424954469 / 288230376151711744 * 10) = 4343749640596543 / 18014398509481984"
  "double (4343749640596543 / 18014398509481984 * (1 / 2)) = 4343749640596543 / 36028797018963968"
proof -
  show "double (5559999539963575 / 2305843009213693952 * 10) = 6949999424954469 / 288230376151711744"
    using double_eval [of "- 6" "5559999539963575 / 2305843009213693952 * 10" 6949999424954469] by simp
  show "double (6949999424954469 / 288230376151711744 * 10) = 4343749640596543 / 18014398509481984"
    using double_eval [of "- 3" "6949999424954469 / 288230376151711744 * 10" 8687499281193086] by simp
  show "double (4343749640596543 / 18014398509481984 * (1 / 2)) = 4343749640596543 / 36028797018963968"
    using double_eval [of "- 4" "4343749640596543 / 18014398509481984 * (1 / 2)" 8687499281193086] by simp
qed

lemma estimate_10_10_2:
  assumes "amount (config st) = 5000" "getTargetDpr st = 2"
  shows "estimate st 10 10 = Fin (4343749640596543 / 36028797018963968)"
  by (rule estimate_eval [OF assms _ density_5000 _ factor_2 _ product_10_10_2(1) _ product_10_10_2(2) _ product_10_10_2(3)]) simp_all

lemma gdac_10_10_2:
  assumes "amount (config st) = 5000" "maxParticles (config st) = 4000" "getTargetDpr st = 2"
  shows "getDensityAdjustedCount st 10 10 = Num 0"
  by (simp add: gdac_estimate estimate_10_10_2 [OF assms(1,3)] assms(2))

lemma product_10_10_5_4:
  "double (5559999539963575 / 2305843009213693952 * 10) = 6949999424954469 / 288230376151711744"
  "double (6949999424954469 / 288230376151711744 * 10) = 4343749640596543 / 18014398509481984"
  "double (4343749640596543 / 18014398509481984 * (3602879701896397 / 4503599627370496)) = 6949999424954469 / 36028797018963968"
proof -
  show "double (5559999539963575 / 2305843009213693952 * 10) = 6949999424954469 / 288230376151711744"
    using double_eval [of "- 6" "5559999539963575 / 2305843009213693952 * 10" 6949999424954469] by simp
  show "double (6949999424954469 / 288230376151711744 * 10) = 4343749640596543 / 18014398509481984"
    using double_eval [of "- 3" "6949999424954469 / 288230376151711744 * 10" 8687499281193086] by simp
  show "double (4343749640596543 / 18014398509481984 * (3602879701896397 / 4503599627370496)) = 6949999424954469 / 36028797018963968"
    using double_eval [of "- 3" "4343749640596543 / 18014398509481984 * (3602879701896397 / 4503599627370496)" 6949999424954469] by simp
qed

lemma estimate_10_10_5_4:
  assumes "amount (config st) = 5000" "getTargetDpr st = 5 / 4"
  shows "estimate st 10 10 = Fin (6949999424954469 / 36028797018963968)"
  by (rule estimate_eval [OF assms _ density_5000 _ factor_5_4 _ product_10_10_5_4(1) _ product_10_10_5_4(2) _ product_10_10_5_4(3)]) simp_all

lemma gdac_10_10_5_4:
  assumes "amount (config st) = 5000" "maxParticles (config st) = 4000" "getTargetDpr st = 5 / 4"
  shows "getDensityAdjustedCount st 10 10 = Num 0"
  by (simp add: gdac_estimate estimate_10_10_5_4 [OF assms(1,3)] assms(2))

lemma product_30_26_5_4:
  "double (5559999539963575 / 2305843009213693952 * 30) = 1303124892178963 / 18014398509481984"
  "double (1303124892178963 / 18014398509481984 * 26) = 2117577949790815 / 1125899906842624"
  "double (2117577949790815 / 1125899906842624 * (3602879701896397 / 4503599627370496)) = 423515589958163 / 281474976710656"
proof -
  show "double (5559999539963575 / 2305843009213693952 * 30) = 1303124892178963 / 18014398509481984"
    using double_eval [of "- 4" "5559999539963575 / 2305843009213693952 * 30" 5212499568715852] by simp
  show "double (1303124892178963 / 18014398509481984 * 26) = 2117577949790815 / 1125899906842624"
    using double_eval_tie [of 0 "1303124892178963 / 18014398509481984 * 26" 8470311799163259] by simp
  show "double (2117577949790815 / 1125899906842624 * (3602879701896397 / 4503599627370496)) = 423515589958163 / 281474976710656"
    using double_eval [of 0 "2117577949790815 / 1125899906842624 * (3602879701896397 / 4503599627370496)" 6776249439330608] by simp
qed

lemma estimate_30_26_5_4:
  assumes "amount (config st) = 5000" "getTargetDpr st = 5 / 4"
  shows "estimate st 30 26 = Fin (423515589958163 / 281474976710656)"
  by (rule estimate_eval [OF assms _ density_5000 _ factor_5_4 _ product_30_26_5_4(1) _ product_30_26_5_4(2) _ product_30_26_5_4(3)]) simp_all

lemma gdac_30_26_5_4:
  assumes "amount (config st) = 5000" "maxParticles (config st) = 4000" "getTargetDpr st = 5 / 4"
  shows "getDensityAdjustedCount st 30 26 = Num 1"
  by (simp add: gdac_estimate estimate_30_26_5_4 [OF assms(1,3)] assms(2))

lemma product_96_108_1:
  "double (5559999539963575 / 2305843009213693952 * 96) = 4169999654972681 / 18014398509481984"
  "double (4169999654972681 / 18014398509481984 * 108) = 7036874417766399 / 281474976710656"
  "double (7036874417766399 / 281474976710656 * 1) = 7036874417766399 / 281474976710656"
proof -
  show "double (5559999539963575 / 2305843009213693952 * 96) = 4169999654972681 / 18014398509481984"
    using double_eval_tie [of "- 3" "5559999539963575 / 2305843009213693952 * 96" 8339999309945362] by simp
  show "double (4169999654972681 / 18014398509481984 * 108) = 7036874417766399 / 281474976710656"
    using double_eval [of 4 "4169999654972681 / 18014398509481984 * 108" 7036874417766399] by simp
  show "double (7036874417766399 / 281474976710656 * 1) = 7036874417766399 / 281474976710656"
    using double_eval [of 4 "7036874417766399 / 281474976710656 * 1" 7036874417766399] by simp
qed

lemma estimate_96_108_1:
  assumes "amount (config st) = 5000" "getTargetDpr st = 1"
  shows "estimate st 96 108 = Fin (7036874417766399 / 281474976710656)"
  by (rule estimate_eval [OF assms _ density_5000 _ factor_1 _ product_96_108_1(1) _ product_96_108_1(2) _ product_96_108_1(3)]) simp_all

lemma gdac_96_108_1:
  assumes "amount (config st) = 5000" "maxParticles (config st) = 4000" "getTargetDpr st = 1"
  shows "getDensityAdjustedCount st 96 108 = Num 24"
  by (simp add: gdac_estimate estimate_96_108_1 [OF assms(1,3)] assms(2))




lemma product_1920_1080_1:
  "double (5559999539963575 / 2305843009213693952 * 1920) = 1303124892178963 / 281474976710656"
  "double (1303124892178963 / 281474976710656 * 1080) = 5000"
  "double (5000 * 1) = 5000"
proof -
  show "double (5559999539963575 / 2305843009213693952 * 1920) = 1303124892178963 / 281474976710656"
    using double_eval [of 2 "5559999539963575 / 2305843009213693952 * 1920" 5212499568715852] by simp
  show "double (1303124892178963 / 281474976710656 * 1080) = 5000"
    using double_eval [of 12 "1303124892178963 / 281474976710656 * 1080" 5497558138880000] by simp
  show "double (5000 * 1) = 5000"
    using double_eval [of 12 "5000 * 1" 5497558138880000] by simp
qed

lemma estimate_1920_1080_1:
  assumes "amount (config st) = 5000" "getTargetDpr st = 1"
  shows "estimate st 1920 1080 = Fin 5000"
  by (rule estimate_eval [OF assms _ density_5000 _ factor_1 _ product_1920_1080_1(1) _ product_1920_1080_1(2) _ product_1920_1080_1(3)]) simp_all

lemma gdac_1920_1080_1:
  assumes "amount (config st) = 5000" "maxParticles (config st) = 4000" "getTargetDpr st = 1"
  shows "getDensityAdjustedCount st 1920 1080 = Num 4000"
  by (simp add: gdac_estimate estimate_1920_1080_1 [OF assms(1,3)] assms(2))






lemma getTargetDpr_new: "getTargetDpr (new_SnowfallCanvas defaultConfig 1 draws) = 1"
  by (simp add: getTargetDpr_def new_SnowfallCanvas_def defaultConfig_def)

lemma getTargetDpr_new2: "getTargetDpr (new_SnowfallCanvas defaultConfig 2 draws) = 2"
  by (simp add: getTargetDpr_def new_SnowfallCanvas_def defaultConfig_def)

lemma config_new:
  "amount (config (new_SnowfallCanvas defaultConfig r draws)) = 5000"
  "maxParticles (config (new_SnowfallCanvas defaultConfig r draws)) = 4000"
  by (simp_all add: new_SnowfallCanvas_def defaultConfig_def)

lemma max_min_clamp: "0 \<le> hi \<Longrightarrow> max 0 (min hi x) = clamp_spec x 0 hi"
  by (simp add: clamp_spec_def max_def min_def)

lemma normal_scale_1: "normal_scale 1" "normal_scale 2"
proof -
  have a: "(2::real) powi (- 1022) \<le> 1" using two_powi_mono [of "- 1022" 0] by simp
  have b: "(1::real) \<le> 2 ^ 1024" by (rule one_le_power) simp
  have c: "(2::real) \<le> 2 ^ 1024" using power_increasing [of 1 1024 "2::real"] by simp
  show "normal_scale 1" using a b by (simp add: normal_scale_def)
  show "normal_scale 2" using a c by (simp add: normal_scale_def)
qed

text \<open>
  Claim C1, as amended. For a surface of positive width and height, a configuration
  with \<open>amount \<ge> 0\<close> and \<open>maxParticles \<ge> 0\<close> and an effective density scale \<open>s\<close> that
  is a positive normal double, the target particle count is
  \<open>clamp (floor P) 0 maxParticles\<close>, where \<open>P\<close> is the product
  \<open>amount / (1920 * 1080) * width * height * (1 / s)\<close> as the code evaluates it, from
  left to right in doubles, every operation rounded: \<open>P\<close> is a number that is at least
  0, or it has overflowed to \<^verbatim>\<open>Infinity\<close>, and then the count is \<open>maxParticles\<close>. For
  every width, height, amount and scale, with \<open>maxParticles \<ge> 0\<close>, a count that is a
  number lies between \<open>0\<close> and \<open>maxParticles\<close>; the count is not a number only when the
  product is not (zero times infinity). At 1920 by 1080 with amount 5000, at most 4000
  particles and scale 1 the count is 4000.
\<close>

theorem getDensityAdjustedCount_clamp:
  "(0 < w \<and> 0 < h \<and> 0 \<le> amount (config st) \<and> 0 \<le> maxParticles (config st)
      \<and> normal_scale (getTargetDpr st) \<longrightarrow>
      (case estimate st w h of
         Fin p \<Rightarrow> 0 \<le> p \<and> getDensityAdjustedCount st w h =
                    Num (clamp_spec (of_int \<lfloor>p\<rfloor>) 0 (maxParticles (config st)))
       | PInf \<Rightarrow> getDensityAdjustedCount st w h = Num (maxParticles (config st))
       | NInf \<Rightarrow> False
       | DNaN \<Rightarrow> False))
   \<and> (0 \<le> maxParticles (config st) \<longrightarrow>
        (case getDensityAdjustedCount st w h of
           Num c \<Rightarrow> 0 \<le> c \<and> c \<le> maxParticles (config st)
         | NaN \<Rightarrow> 0 < w \<and> 0 < h \<and> estimate st w h = DNaN))
   \<and> getDensityAdjustedCount (new_SnowfallCanvas defaultConfig 1 draws) 1920 1080 = Num 4000"
proof (intro conjI impI)
  assume a: "0 < w \<and> 0 < h \<and> 0 \<le> amount (config st) \<and> 0 \<le> maxParticles (config st)
      \<and> normal_scale (getTargetDpr st)"
  then have n: "nonneg_d (estimate st w h)" by (intro estimate_nonneg) simp_all
  have g: "getDensityAdjustedCount st w h
      = clamp_count (maxParticles (config st)) (dfloor (estimate st w h))"
    using a by (intro gdac_estimate) simp_all
  show "case estimate st w h of
         Fin p \<Rightarrow> 0 \<le> p \<and> getDensityAdjustedCount st w h =
                    Num (clamp_spec (of_int \<lfloor>p\<rfloor>) 0 (maxParticles (config st)))
       | PInf \<Rightarrow> getDensityAdjustedCount st w h = Num (maxParticles (config st))
       | NInf \<Rightarrow> False
       | DNaN \<Rightarrow> False"
  proof (cases "estimate st w h")
    case (Fin p)
    have "max 0 (min (maxParticles (config st)) (of_int \<lfloor>p\<rfloor>))
        = clamp_spec (of_int \<lfloor>p\<rfloor>) 0 (maxParticles (config st))"
      using a by (intro max_min_clamp) simp
    then show ?thesis using n g Fin by simp
  next
    case PInf
    then show ?thesis using a g by simp
  qed (use n in simp_all)
next
  assume m: "0 \<le> maxParticles (config st)"
  show "case getDensityAdjustedCount st w h of
           Num c \<Rightarrow> 0 \<le> c \<and> c \<le> maxParticles (config st)
         | NaN \<Rightarrow> 0 < w \<and> 0 < h \<and> estimate st w h = DNaN"
  proof (cases "w \<le> 0 \<or> h \<le> 0")
    case True
    then show ?thesis using m by (simp add: gdac_degenerate)
  next
    case False
    then have "getDensityAdjustedCount st w h
        = clamp_count (maxParticles (config st)) (dfloor (estimate st w h))"
      by (intro gdac_estimate) simp_all
    then show ?thesis using m False by (cases "estimate st w h") simp_all
  qed
next
  show "getDensityAdjustedCount (new_SnowfallCanvas defaultConfig 1 draws) 1920 1080 = Num 4000"
    by (rule gdac_1920_1080_1) (simp_all add: config_new getTargetDpr_new)
qed


lemma engine_1x_facts:
  "amount (config engine_1x) = 5000" "maxParticles (config engine_1x) = 4000"
  "getTargetDpr engine_1x = 1"
  by (simp_all add: engine_1x_def config_new getTargetDpr_new)

lemma engine_2x_facts:
  "amount (config engine_2x) = 5000" "maxParticles (config engine_2x) = 4000"
  "getTargetDpr engine_2x = 2" "config engine_2x = config engine_1x"
  by (simp_all add: engine_2x_def engine_1x_def config_new getTargetDpr_new2)
    (simp add: new_SnowfallCanvas_def)

lemma tiny_scale:
  "getTargetDpr tiny_scale_engine = 2 powi (- 1030)"
  "getDensityAdjustedCount tiny_scale_engine 1920 1080 = NaN"
proof -
  have le: "(2::real) powi (- 1030) \<le> 1" using two_powi_mono [of "- 1030" 0] by simp
  show t: "getTargetDpr tiny_scale_engine = 2 powi (- 1030)"
    using le by (simp add: tiny_scale_engine_def getTargetDpr_def new_SnowfallCanvas_def min_def)
  have z: "to_dnum 0 = Fin 0" by (simp add: to_dnum_def)
  have r: "representable 53 (- 1022) (2 powi 1030)"
    unfolding representable_def by (intro exI [of _ 1] exI [of _ 1030]) simp
  have i: "1 / (2::real) powi (- 1030) = 2 powi 1030"
    by (simp only: power_int_minus inverse_eq_divide divide_divide_eq_right mult_1 div_by_1)
  have "(2::real) ^ 1024 = 2 powi 1024" by (simp only: power_int_numeral)
  also have "\<dots> \<le> 2 powi 1030" by (rule two_powi_mono) simp
  finally have "(2::real) ^ 1024 \<le> double (2 powi 1030)"
    by (simp only: double_of_representable [OF r])
  then have "to_dnum (2 powi 1030) = PInf" by (simp only: to_dnum_def if_True)
  moreover have "(2::real) powi (- 1030) \<noteq> 0" by simp
  ultimately have f: "ddiv 1 (2 powi (- 1030)) = PInf"
    unfolding ddiv_def i by (simp only: if_False)
  have a: "amount (config tiny_scale_engine) = 0"
    by (simp add: tiny_scale_engine_def new_SnowfallCanvas_def)
  have "estimate tiny_scale_engine 1920 1080 = DNaN"
    unfolding estimate_def t f a by (simp add: ddiv_def z)
  then show "getDensityAdjustedCount tiny_scale_engine 1920 1080 = NaN"
    by (simp add: gdac_estimate)
qed

text \<open>
  With the default configuration at scale 1 on a surface of 96 by 108, the exact
  product is 25, and so is the count the claim gives; the code multiplies the rounded
  density \<open>5000 / 2073600\<close> by 96 and by 108, rounding each time, and gets
  \<open>24.999999999999996\<close>, whose floor is 24. With amount 0 and the subnormal scale
  \<open>2 ^ - 1030\<close> the factor \<open>1 / s\<close> is \<^verbatim>\<open>Infinity\<close>, the product is \<^verbatim>\<open>NaN\<close>
  and so is the count.
\<close>

theorem density_formula_counterexample:
  "amount (config engine_1x) = 5000 \<and> maxParticles (config engine_1x) = 4000
   \<and> getTargetDpr engine_1x = 1
   \<and> clamp_spec (of_int \<lfloor>5000 / (1920 * 1080) * 96 * 108 * (1 / 1) :: real\<rfloor>) 0 4000 = 25
   \<and> getDensityAdjustedCount engine_1x 96 108 = Num 24
   \<and> amount (config tiny_scale_engine) = 0 \<and> 0 \<le> maxParticles (config tiny_scale_engine)
   \<and> 0 < getTargetDpr tiny_scale_engine
   \<and> getDensityAdjustedCount tiny_scale_engine 1920 1080 = NaN"
proof -
  have "getDensityAdjustedCount engine_1x 96 108 = Num 24"
    by (rule gdac_96_108_1) (rule engine_1x_facts)+
  moreover have "clamp_spec (of_int \<lfloor>5000 / (1920 * 1080) * 96 * 108 * (1 / 1) :: real\<rfloor>) 0 4000 = 25"
    by (simp add: clamp_spec_def)
  moreover have "amount (config tiny_scale_engine) = 0" "0 \<le> maxParticles (config tiny_scale_engine)"
    by (simp_all add: tiny_scale_engine_def new_SnowfallCanvas_def defaultConfig_def)
  ultimately show ?thesis
    by (simp add: engine_1x_facts tiny_scale)
qed

text \<open>The theorem on the surface of 96 by 108: the product of the code is
  \<open>24.999999999999996\<close> and the count is its floor, 24.\<close>

theorem getDensityAdjustedCount_clamp_witness:
  "0 < (96::real) \<and> 0 < (108::real) \<and> 0 \<le> amount (config engine_1x)
   \<and> 0 \<le> maxParticles (config engine_1x) \<and> normal_scale (getTargetDpr engine_1x)
   \<and> estimate engine_1x 96 108 = Fin (7036874417766399 / 281474976710656)
   \<and> \<lfloor>7036874417766399 / 281474976710656 :: real\<rfloor> = 24
   \<and> getDensityAdjustedCount engine_1x 96 108 = Num 24"
  using getDensityAdjustedCount_clamp [of 96 108 engine_1x]
  by (simp add: engine_1x_facts normal_scale_1 estimate_96_108_1 [OF engine_1x_facts(1,3)] clamp_spec_def)

subsection \<open>Monotonicity of the density model\<close>






subsection \<open>Recycling\<close>

text \<open>
  Claim C8. Recycling particle \<open>i\<close> leaves the arrays of sizes, amplitudes, swing rates
  and fall rates as they are, keeps the length of the four arrays it writes, and changes
  no component of any other particle \<open>j \<noteq> i\<close>.
\<close>

theorem resetTop_preserves:
  "size_arr (resetTop i st) = size_arr st \<and> amplitude (resetTop i st) = amplitude st
   \<and> velX (resetTop i st) = velX st \<and> velY (resetTop i st) = velY st
   \<and> length (posX (resetTop i st)) = length (posX st) \<and> length (posY (resetTop i st)) = length (posY st)
   \<and> length (originX (resetTop i st)) = length (originX st) \<and> length (dx (resetTop i st)) = length (dx st)
   \<and> (\<forall>j. j \<noteq> i \<longrightarrow>
        posX (resetTop i st) ! j = posX st ! j \<and> posY (resetTop i st) ! j = posY st ! j
        \<and> originX (resetTop i st) ! j = originX st ! j \<and> dx (resetTop i st) ! j = dx st ! j)"
  by (simp add: resetTop_unfold)

theorem resetTop_preserves_witness:
  "(1::nat) \<noteq> 0 \<and> size_arr (resetTop 0 two_flakes) = [1, 1]
   \<and> posY (resetTop 0 two_flakes) ! 1 = 1079 \<and> dx (resetTop 0 two_flakes) ! 1 = 1"
  using resetTop_preserves [of 0 two_flakes] by (simp add: two_flakes_def)

subsection \<open>What each operation leaves unchanged\<close>

lemma clear_frame:
  "posX (clear st) = posX st" "posY (clear st) = posY st" "originX (clear st) = originX st"
  "dx (clear st) = dx st" "size_arr (clear st) = size_arr st" "amplitude (clear st) = amplitude st"
  "velX (clear st) = velX st" "velY (clear st) = velY st"
  "width (clear st) = width st" "height (clear st) = height st"
  "rng (clear st) = rng st" "rngPos (clear st) = rngPos st"
  "config (clear st) = config st" "particleCount (clear st) = particleCount st"
  "dprOverride (clear st) = dprOverride st" "dpr (clear st) = dpr st"
  "devicePixelRatio (clear st) = devicePixelRatio st"
  "frameTimeAvg (clear st) = frameTimeAvg st"
  "perfCooldownFrames (clear st) = perfCooldownFrames st"
  "running (clear st) = running st" "lastTime (clear st) = lastTime st"
  by (simp_all add: clear_def)

lemma draw_frame:
  "posX (draw st) = posX st" "posY (draw st) = posY st" "originX (draw st) = originX st"
  "dx (draw st) = dx st" "size_arr (draw st) = size_arr st" "amplitude (draw st) = amplitude st"
  "velX (draw st) = velX st" "velY (draw st) = velY st"
  "width (draw st) = width st" "height (draw st) = height st"
  "rng (draw st) = rng st" "rngPos (draw st) = rngPos st"
  "config (draw st) = config st" "particleCount (draw st) = particleCount st"
  "dprOverride (draw st) = dprOverride st" "dpr (draw st) = dpr st"
  "devicePixelRatio (draw st) = devicePixelRatio st"
  "frameTimeAvg (draw st) = frameTimeAvg st"
  "perfCooldownFrames (draw st) = perfCooldownFrames st"
  "running (draw st) = running st" "lastTime (draw st) = lastTime st"
  by (simp_all add: draw_def)

lemma store_ok_cong:
  "posX s = posX st \<Longrightarrow> posY s = posY st \<Longrightarrow> originX s = originX st \<Longrightarrow> dx s = dx st \<Longrightarrow>
   size_arr s = size_arr st \<Longrightarrow> amplitude s = amplitude st \<Longrightarrow> velX s = velX st \<Longrightarrow>
   velY s = velY st \<Longrightarrow> store_ok s = store_ok st"
  by (simp add: store_ok_def)

lemma loop_running:
  "running st \<Longrightarrow> loop t st =
     maybeAdjustPerformance (draw (update (tick_dt t st)
       (clear (st\<lparr>lastTime := t, frameTimeAvg := tick_avg t st\<rparr>))))"
  by (simp add: loop_def Let_def tick_dt_def tick_avg_def)

lemma loop_stopped: "\<not> running st \<Longrightarrow> loop t st = st"
  by (simp add: loop_def)

lemma maybeAdjustPerformance_idle:
  "frameTimeAvg st \<le> 22 \<Longrightarrow> perfCooldownFrames st = 0 \<Longrightarrow> maybeAdjustPerformance st = st"
  by (simp add: maybeAdjustPerformance_def)

lemma seedParticle_frame:
  "dprOverride (seedParticle i st) = dprOverride st" "config (seedParticle i st) = config st"
  "devicePixelRatio (seedParticle i st) = devicePixelRatio st"
  "particleCount (seedParticle i st) = particleCount st"
  "width (seedParticle i st) = width st" "height (seedParticle i st) = height st"
  "dpr (seedParticle i st) = dpr st" "rng (seedParticle i st) = rng st"
  "frameTimeAvg (seedParticle i st) = frameTimeAvg st"
  "perfCooldownFrames (seedParticle i st) = perfCooldownFrames st"
  "running (seedParticle i st) = running st" "lastTime (seedParticle i st) = lastTime st"
  "ctxLog (seedParticle i st) = ctxLog st"
  by (simp_all add: seedParticle_def rand_def Let_def)

lemma fold_seedParticle_frame:
  "dprOverride (fold seedParticle js st) = dprOverride st"
  "config (fold seedParticle js st) = config st"
  "devicePixelRatio (fold seedParticle js st) = devicePixelRatio st"
  "particleCount (fold seedParticle js st) = particleCount st"
  "width (fold seedParticle js st) = width st" "height (fold seedParticle js st) = height st"
  "dpr (fold seedParticle js st) = dpr st" "rng (fold seedParticle js st) = rng st"
  "frameTimeAvg (fold seedParticle js st) = frameTimeAvg st"
  "perfCooldownFrames (fold seedParticle js st) = perfCooldownFrames st"
  "running (fold seedParticle js st) = running st" "lastTime (fold seedParticle js st) = lastTime st"
  "ctxLog (fold seedParticle js st) = ctxLog st"
  by (induction js arbitrary: st; simp add: seedParticle_frame)+

lemma reseedParticles_frame:
  "dprOverride (reseedParticles c st) = dprOverride st"
  "config (reseedParticles c st) = config st"
  "devicePixelRatio (reseedParticles c st) = devicePixelRatio st"
  "particleCount (reseedParticles c st) = c"
  "width (reseedParticles c st) = width st" "height (reseedParticles c st) = height st"
  "dpr (reseedParticles c st) = dpr st" "rng (reseedParticles c st) = rng st"
  "frameTimeAvg (reseedParticles c st) = frameTimeAvg st"
  "perfCooldownFrames (reseedParticles c st) = perfCooldownFrames st"
  "running (reseedParticles c st) = running st" "lastTime (reseedParticles c st) = lastTime st"
  "ctxLog (reseedParticles c st) = ctxLog st"
  by (simp_all add: reseedParticles_def Let_def fold_seedParticle_frame)

lemma resize_frame:
  "dprOverride (resize w h n st) = dprOverride st"
  "config (resize w h n st) = config st"
  "devicePixelRatio (resize w h n st) = devicePixelRatio st"
  "frameTimeAvg (resize w h n st) = frameTimeAvg st"
  "perfCooldownFrames (resize w h n st) = perfCooldownFrames st"
  "running (resize w h n st) = running st" "lastTime (resize w h n st) = lastTime st"
  "dpr (resize w h n st) = getTargetDpr st"
  "width (resize w h n st) = max 1 (of_int \<lfloor>w\<rfloor>)"
  "height (resize w h n st) = max 1 (of_int \<lfloor>h\<rfloor>)"
  by (simp_all add: resize_def Let_def reseedParticles_frame split: jsnum.splits option.splits)

lemma resize_fields:
  "width (resize w h n st) = max 1 (of_int \<lfloor>w\<rfloor>)"
  "height (resize w h n st) = max 1 (of_int \<lfloor>h\<rfloor>)"
  by (simp_all add: resize_frame)

lemma resize_keeps_count:
  "\<not> 0 < c \<Longrightarrow> particleCount (resize w h (Some (Num c)) st) = particleCount st"
  by (simp add: resize_def Let_def)

lemma resize_sets_count:
  "0 < c \<Longrightarrow> particleCount (resize w h (Some (Num c)) st) = c"
  by (simp add: resize_def Let_def reseedParticles_frame)

lemma resizeToContainer_frame:
  "dprOverride (resizeToContainer w h st) = dprOverride st"
  "config (resizeToContainer w h st) = config st"
  "devicePixelRatio (resizeToContainer w h st) = devicePixelRatio st"
  "running (resizeToContainer w h st) = running st"
  by (simp_all add: resizeToContainer_def resize_frame)

lemma maybeAdjustPerformance_frame:
  "config (maybeAdjustPerformance st) = config st"
  "devicePixelRatio (maybeAdjustPerformance st) = devicePixelRatio st"
  "running (maybeAdjustPerformance st) = running st"
  "lastTime (maybeAdjustPerformance st) = lastTime st"
  "frameTimeAvg (maybeAdjustPerformance st) = frameTimeAvg st"
  by (simp_all add: maybeAdjustPerformance_def Let_def resize_frame)

lemma run_snoc: "run (evs @ [e]) st = step e (run evs st)"
  by (simp add: run_def)

subsection \<open>The adaptive performance controller\<close>

text \<open>The override after one evaluation of the controller.\<close>

lemma maybeAdjustPerformance_override:
  "dprOverride (maybeAdjustPerformance st) =
     (if perfCooldownFrames st = 0 \<and> frameTimeAvg st > 22
         \<and> max 1 (min (dpr st) (5/4)) < (case dprOverride st of Some ov \<Rightarrow> ov | None \<Rightarrow> dpr st)
      then Some (max 1 (min (dpr st) (5/4))) else dprOverride st)"
  by (simp add: maybeAdjustPerformance_def Let_def resize_frame)

lemma override_le_refl: "override_le v v"
  by (simp add: override_le_def split: option.splits)

lemma override_le_trans: "override_le a b \<Longrightarrow> override_le b c \<Longrightarrow> override_le a c"
  by (auto simp add: override_le_def split: option.splits)

lemma maybeAdjustPerformance_override_le:
  "override_le (dprOverride (maybeAdjustPerformance st)) (dprOverride st)"
  by (auto simp add: maybeAdjustPerformance_override override_le_def split: option.splits)

lemma loop_frame:
  "config (loop t st) = config st" "devicePixelRatio (loop t st) = devicePixelRatio st"
  "running (loop t st) = running st"
  by (cases "running st";
      simp add: loop_running loop_stopped maybeAdjustPerformance_frame draw_frame update_frame clear_frame)+

lemma loop_override_le: "override_le (dprOverride (loop t st)) (dprOverride st)"
proof (cases "running st")
  case True
  let ?s = "draw (update (tick_dt t st)
       (clear (st\<lparr>lastTime := t, frameTimeAvg := tick_avg t st\<rparr>)))"
  have "dprOverride ?s = dprOverride st"
    by (simp add: draw_frame update_frame clear_frame)
  then show ?thesis
    using maybeAdjustPerformance_override_le [of ?s] True by (simp add: loop_running)
next
  case False
  then show ?thesis by (simp add: loop_stopped override_le_refl)
qed

lemma start_frame:
  "config (start now st) = config st" "devicePixelRatio (start now st) = devicePixelRatio st"
  by (simp_all add: start_def loop_frame)

lemma start_override_le: "override_le (dprOverride (start now st)) (dprOverride st)"
  using loop_override_le [of now "st\<lparr>running := True, lastTime := now\<rparr>"]
  by (simp add: start_def override_le_refl)

lemma step_config: "config (step e st) = config st"
  by (cases e) (simp_all add: loop_frame resizeToContainer_frame start_frame stop_def)

lemma step_override_le: "override_le (dprOverride (step e st)) (dprOverride st)"
  by (cases e)
    (simp_all add: loop_override_le start_override_le resizeToContainer_frame stop_def override_le_refl)

lemma run_config: "config (run evs st) = config st"
  unfolding run_def by (induction evs arbitrary: st) (simp_all add: step_config)

lemma run_override_le: "override_le (dprOverride (run evs st)) (dprOverride st)"
  unfolding run_def
proof (induction evs arbitrary: st)
  case Nil
  show ?case by (simp add: override_le_refl)
next
  case (Cons e evs)
  have "override_le (dprOverride (fold step evs (step e st))) (dprOverride (step e st))"
    by (rule Cons.IH)
  then show ?case using step_override_le [of e st] by (auto intro: override_le_trans)
qed

lemma getTargetDpr_le: "getTargetDpr st \<le> min (dprCap (config st)) (max 1 (platformScale st))"
  by (auto simp add: getTargetDpr_def platformScale_def Let_def min_def max_def split: option.splits)

text \<open>
  Claim C5. Over any session (frames, container resizes, changes of the platform's
  pixel ratio, starts and stops) the density-scale override does not increase, where no
  override counts as above every override: once set it stays set and never grows. One
  evaluation of the controller either leaves the override as it is or sets it to a value
  strictly below the override in force (below the current scale when there is none).
  The effective density scale after the session is at most
  \<open>min pixelDensityCap (max 1 platformScale)\<close>.
\<close>

theorem override_ratchet:
  "override_le (dprOverride (run evs st)) (dprOverride st)
   \<and> getTargetDpr (run evs st) \<le> min (dprCap (config st)) (max 1 (platformScale (run evs st)))
   \<and> (dprOverride (maybeAdjustPerformance st) = dprOverride st
       \<or> (\<exists>v. dprOverride (maybeAdjustPerformance st) = Some v
             \<and> v < (case dprOverride st of Some ov \<Rightarrow> ov | None \<Rightarrow> dpr st)))"
  using run_override_le [of evs st] getTargetDpr_le [of "run evs st"] 
  by (auto simp add: run_config maybeAdjustPerformance_override)

subsection \<open>The controller and the empty store in general\<close>

text \<open>With no particles the update changes nothing and the draw only sets the fill
  style; a resize to a degenerate size never changes the particle count; during a
  cooldown the controller only counts down; when it acts it starts a cooldown of 90
  frames and, for a positive minimum of the reduced and the target count, sets the
  particle count to that minimum.\<close>

lemma update_empty: "particleCount st \<le> 0 \<Longrightarrow> update dt st = st"
proof -
  assume "particleCount st \<le> 0"
  then have "\<lceil>particleCount st\<rceil> \<le> 0" by (simp add: ceiling_le_iff)
  then show ?thesis by (simp add: update_def)
qed

lemma draw_empty:
  "particleCount st \<le> 0 \<Longrightarrow> draw st = st\<lparr>ctxLog := ctxLog st @ [FillStyle (color (config st))]\<rparr>"
proof -
  assume "particleCount st \<le> 0"
  then have "\<lceil>particleCount st\<rceil> \<le> 0" by (simp add: ceiling_le_iff)
  then show ?thesis by (simp add: draw_def)
qed

lemma resize_zero_count:
  "particleCount (resizeToContainer w h st) = particleCount st" if "w \<le> 0 \<or> h \<le> 0"
  using that by (simp add: resizeToContainer_def gdac_degenerate resize_keeps_count)

lemma maybeAdjustPerformance_cooldown:
  "0 < perfCooldownFrames st \<Longrightarrow>
   maybeAdjustPerformance st = st\<lparr>perfCooldownFrames := perfCooldownFrames st - 1\<rparr>"
  by (simp add: maybeAdjustPerformance_def)

lemma maybeAdjustPerformance_acts:
  assumes "perfCooldownFrames st = 0" "22 < frameTimeAvg st"
    and "max 1 (min (dpr st) (5/4)) < (case dprOverride st of Some ov \<Rightarrow> ov | None \<Rightarrow> dpr st)
         \<or> max 200 (of_int \<lfloor>double (particleCount st * (3/4))\<rfloor>) < particleCount st"
  shows "perfCooldownFrames (maybeAdjustPerformance st) = 90"
    and "js_min (max 200 (of_int \<lfloor>double (particleCount st * (3/4))\<rfloor>))
           (getDensityAdjustedCount (maybeAdjustPerformance st) (width st) (height st)) = Num c
         \<Longrightarrow> 0 < c \<Longrightarrow> particleCount (maybeAdjustPerformance st) = c"
proof -
  define s1 where "s1 = (if max 1 (min (dpr st) (5/4)) < (case dprOverride st of Some ov \<Rightarrow> ov | None \<Rightarrow> dpr st)
      then st\<lparr>dprOverride := Some (max 1 (min (dpr st) (5/4)))\<rparr> else st)"
  define s2 where "s2 = s1\<lparr>perfCooldownFrames := 90\<rparr>"
  have s2: "width s2 = width st" "height s2 = height st" "perfCooldownFrames s2 = 90"
    by (simp_all add: s2_def s1_def)
  have m: "maybeAdjustPerformance st = resize (width s2) (height s2)
      (Some (js_min (max 200 (of_int \<lfloor>double (particleCount st * (3/4))\<rfloor>))
         (getDensityAdjustedCount s2 (width s2) (height s2)))) s2"
    using assms by (auto simp add: maybeAdjustPerformance_def Let_def s2_def s1_def)
  show "perfCooldownFrames (maybeAdjustPerformance st) = 90"
    unfolding m by (simp add: resize_frame s2)
  have g: "getDensityAdjustedCount (maybeAdjustPerformance st) w h = getDensityAdjustedCount s2 w h" for w h
    by (rule gdac_cong) (simp_all add: m resize_frame)
  show "particleCount (maybeAdjustPerformance st) = c"
    if "js_min (max 200 (of_int \<lfloor>double (particleCount st * (3/4))\<rfloor>))
           (getDensityAdjustedCount (maybeAdjustPerformance st) (width st) (height st)) = Num c"
      and "0 < c"
    using that unfolding g unfolding m by (simp add: s2 resize_sets_count)
qed

text \<open>\<^verbatim>\<open>setMaxParticles(0)\<close>, unlike \<^verbatim>\<open>resize\<close> with a count of 0, empties the
  store.\<close>

lemma setMaxParticles_zero:
  assumes "normal_scale (getTargetDpr st)" "store_ok st"
  shows "\<exists>s'. setMaxParticles 0 st = Some s' \<and> particleCount s' = 0 \<and> posY s' = []"
proof -
  define s1 where "s1 = st\<lparr>config := (config st)\<lparr>maxParticles := 0\<rparr>\<rparr>"
  have t: "getTargetDpr s1 = getTargetDpr st"
    by (simp add: s1_def getTargetDpr_def)
  have m: "maxParticles (config s1) = 0" by (simp add: s1_def)
  have g: "getDensityAdjustedCount s1 (width s1) (height s1) = Num 0"
  proof (cases "width s1 \<le> 0 \<or> height s1 \<le> 0")
    case True
    then show ?thesis by (rule gdac_degenerate)
  next
    case False
    then have wh: "0 < width s1" "0 < height s1" by simp_all
    have n: "normal_scale (getTargetDpr s1)" using assms(1) by (simp add: t)
    have "nonneg_d (estimate s1 (width s1) (height s1)) \<or> nonpos_d (estimate s1 (width s1) (height s1))"
      using estimate_nonneg [OF wh _ n] estimate_nonpos [OF wh _ n] by linarith
    then have "clamp_count 0 (dfloor (estimate s1 (width s1) (height s1))) = Num 0"
      by (cases "estimate s1 (width s1) (height s1)") (simp_all add: max_def min_def)
    then show ?thesis by (simp add: gdac_estimate [OF wh] m)
  qed
  have "setMaxParticles 0 st =
      (case getDensityAdjustedCount s1 (width s1) (height s1) of
         Num c \<Rightarrow> Some (reseedParticles c s1) | NaN \<Rightarrow> None)"
    unfolding setMaxParticles_def Let_def s1_def by (simp split: jsnum.splits)
  then have "setMaxParticles 0 st = Some (reseedParticles 0 s1)"
    by (simp add: g)
  moreover have "particleCount (reseedParticles 0 s1) = 0"
    by (simp add: reseedParticles_frame)
  moreover have "posY (reseedParticles 0 s1) = []"
    using assms(2) by (auto simp add: reseedParticles_def Let_def s1_def store_ok_def)
  ultimately show ?thesis by simp
qed

subsection \<open>What holds in every state an engine reaches\<close>

text \<open>From the constructor on, over any session: the eight arrays share one length,
  the surface is at least 1 by 1 unless the store is empty, and the random draws are
  those the engine was given.\<close>

lemma store_ok_new: "store_ok (new_SnowfallCanvas cfg ratio draws)"
  by (simp add: store_ok_def new_SnowfallCanvas_def)

lemma store_ok_seedParticle: "store_ok st \<Longrightarrow> store_ok (seedParticle i st)"
  by (simp add: store_ok_def seedParticle_def rand_def Let_def)

lemma store_ok_fold_seed: "store_ok st \<Longrightarrow> store_ok (fold seedParticle js st)"
  by (induction js arbitrary: st) (simp_all add: store_ok_seedParticle)

lemma store_ok_reseedParticles: "store_ok st \<Longrightarrow> store_ok (reseedParticles c st)"
proof -
  assume ok: "store_ok st"
  let ?n = "nat \<lfloor>c\<rfloor>"
  let ?s1 = "st\<lparr>particleCount := c\<rparr>"
  let ?s2 = "?s1\<lparr>posX := replicate ?n 0, posY := replicate ?n 0,
                        originX := replicate ?n 0, dx := replicate ?n 0,
                        size_arr := replicate ?n 0, amplitude := replicate ?n 0,
                        velX := replicate ?n 0, velY := replicate ?n 0\<rparr>"
  have "store_ok ?s1" using ok by (simp add: store_ok_def)
  moreover have "store_ok ?s2" by (simp add: store_ok_def)
  ultimately show ?thesis
    by (simp add: reseedParticles_def Let_def store_ok_fold_seed)
qed

lemma store_ok_resize: "store_ok st \<Longrightarrow> store_ok (resize w h n st)"
proof -
  assume ok: "store_ok st"
  let ?s1 = "st\<lparr>width := max 1 (of_int \<lfloor>w\<rfloor>), height := max 1 (of_int \<lfloor>h\<rfloor>),
                  dpr := getTargetDpr st,
                  canvasWidth := \<lfloor>double (max 1 (of_int \<lfloor>w\<rfloor>) * getTargetDpr st)\<rfloor>,
                  canvasHeight := \<lfloor>double (max 1 (of_int \<lfloor>h\<rfloor>) * getTargetDpr st)\<rfloor>,
                  ctxLog := ctxLog st @ [SetTransform (getTargetDpr st) 0 0 (getTargetDpr st) 0 0]\<rparr>"
  have "store_ok ?s1" using ok by (simp add: store_ok_def)
  then show ?thesis
    by (simp add: resize_def Let_def store_ok_reseedParticles split: jsnum.splits option.splits)
qed

lemma store_ok_resizeToContainer: "store_ok st \<Longrightarrow> store_ok (resizeToContainer w h st)"
  by (simp add: resizeToContainer_def store_ok_resize)

lemma store_ok_maybeAdjustPerformance: "store_ok st \<Longrightarrow> store_ok (maybeAdjustPerformance st)"
proof -
  assume ok: "store_ok st"
  have a: "store_ok (st\<lparr>perfCooldownFrames := k\<rparr>)" for k
    using ok by (simp add: store_ok_def)
  have b: "store_ok (st\<lparr>dprOverride := v, perfCooldownFrames := k\<rparr>)" for v k
    using ok by (simp add: store_ok_def)
  have c: "store_ok (st\<lparr>dprOverride := v\<rparr>)" for v
    using ok by (simp add: store_ok_def)
  show ?thesis
    by (simp add: maybeAdjustPerformance_def Let_def store_ok_resize a b c ok)
qed

lemma store_ok_draw: "store_ok (draw st) = store_ok st"
  by (simp add: store_ok_def draw_frame)

lemma store_ok_clear: "store_ok (clear st) = store_ok st"
  by (simp add: store_ok_def clear_frame)

lemma store_ok_loop: "store_ok st \<Longrightarrow> store_ok (loop t st)"
proof (cases "running st")
  case True
  assume ok: "store_ok st"
  have "store_ok (st\<lparr>lastTime := t, frameTimeAvg := tick_avg t st\<rparr>)"
    using ok by (simp add: store_ok_def)
  then show ?thesis
    using True
    by (simp add: loop_running store_ok_maybeAdjustPerformance store_ok_draw store_ok_update
        store_ok_clear)
next
  case False
  assume "store_ok st"
  then show ?thesis using False by (simp add: loop_stopped)
qed

lemma store_ok_step:
  assumes ok: "store_ok st"
  shows "store_ok (step e st)"
proof (cases e)
  case (Frame t)
  then show ?thesis using ok by (simp add: store_ok_loop)
next
  case (ContainerSized w h)
  then show ?thesis using ok by (simp add: store_ok_resizeToContainer)
next
  case (PixelRatioChanged r)
  then show ?thesis using ok by (simp add: store_ok_def)
next
  case (Started now)
  have "store_ok (st\<lparr>running := True, lastTime := now\<rparr>)"
    using ok by (simp add: store_ok_def)
  then show ?thesis using ok Started by (simp add: start_def store_ok_loop)
next
  case Stopped
  then show ?thesis using ok by (simp add: stop_def store_ok_def)
qed

lemma store_ok_run: "store_ok st \<Longrightarrow> store_ok (run evs st)"
  unfolding run_def by (induction evs arbitrary: st) (simp_all add: store_ok_step)

lemma rng_frame:
  "rng (resize w h n st) = rng st" "rng (maybeAdjustPerformance st) = rng st"
  by (simp_all add: resize_def maybeAdjustPerformance_def Let_def reseedParticles_frame
      split: jsnum.splits option.splits)

lemma rng_loop: "rng (loop t st) = rng st"
  by (cases "running st")
    (simp_all add: loop_running loop_stopped rng_frame draw_frame update_frame clear_frame)

lemma rng_step: "rng (step e st) = rng st"
  by (cases e) (simp_all add: rng_loop resizeToContainer_def rng_frame start_def stop_def)

lemma rng_ok_run: "rng_ok st \<Longrightarrow> rng_ok (run evs st)"
proof -
  have "rng (run evs st) = rng st"
    unfolding run_def by (induction evs arbitrary: st) (simp_all add: rng_step)
  then show "rng_ok st \<Longrightarrow> rng_ok (run evs st)" by (simp add: rng_ok_def)
qed


lemma sized_resize: "sized_or_empty (resize w h n st)"
  by (simp add: sized_or_empty_def resize_fields)

lemma sized_maybeAdjustPerformance:
  "sized_or_empty st \<Longrightarrow> sized_or_empty (maybeAdjustPerformance st)"
proof -
  assume a: "sized_or_empty st"
  have b: "sized_or_empty (st\<lparr>perfCooldownFrames := k\<rparr>)"
    "sized_or_empty (st\<lparr>dprOverride := v\<rparr>)" for k v
    using a by (simp_all add: sized_or_empty_def)
  show ?thesis
    by (simp add: maybeAdjustPerformance_def Let_def sized_resize a b)
qed

lemma sized_loop: "sized_or_empty st \<Longrightarrow> sized_or_empty (loop t st)"
proof (cases "running st")
  case True
  assume a: "sized_or_empty st"
  let ?pre = "draw (update (tick_dt t st)
       (clear (st\<lparr>lastTime := t, frameTimeAvg := tick_avg t st\<rparr>)))"
  have "sized_or_empty ?pre"
    using a by (simp add: sized_or_empty_def draw_frame update_frame clear_frame)
  then show ?thesis using True by (simp add: loop_running sized_maybeAdjustPerformance)
next
  case False
  assume "sized_or_empty st"
  then show ?thesis using False by (simp add: loop_stopped)
qed

lemma sized_step:
  assumes a: "sized_or_empty st"
  shows "sized_or_empty (step e st)"
proof (cases e)
  case (Frame t)
  then show ?thesis using a by (simp add: sized_loop)
next
  case (ContainerSized w h)
  then show ?thesis by (simp add: resizeToContainer_def sized_resize)
next
  case (PixelRatioChanged r)
  then show ?thesis using a by (simp add: sized_or_empty_def)
next
  case (Started now)
  have "sized_or_empty (st\<lparr>running := True, lastTime := now\<rparr>)"
    using a by (simp add: sized_or_empty_def)
  then show ?thesis using a Started by (simp add: start_def sized_loop)
next
  case Stopped
  then show ?thesis using a by (simp add: stop_def sized_or_empty_def)
qed

lemma sized_run: "sized_or_empty st \<Longrightarrow> sized_or_empty (run evs st)"
  unfolding run_def by (induction evs arbitrary: st) (simp_all add: sized_step)

lemma reachable_invariants:
  "store_ok (run evs (new_SnowfallCanvas cfg ratio draws))"
  "sized_or_empty (run evs (new_SnowfallCanvas cfg ratio draws))"
  "(\<forall>n. 0 \<le> draws n \<and> draws n < 1) \<Longrightarrow> rng_ok (run evs (new_SnowfallCanvas cfg ratio draws))"
proof -
  show "store_ok (run evs (new_SnowfallCanvas cfg ratio draws))"
    by (rule store_ok_run) (rule store_ok_new)
  show "sized_or_empty (run evs (new_SnowfallCanvas cfg ratio draws))"
    by (rule sized_run) (simp add: sized_or_empty_def new_SnowfallCanvas_def)
  show "rng_ok (run evs (new_SnowfallCanvas cfg ratio draws))"
    if "\<forall>n. 0 \<le> draws n \<and> draws n < 1"
  proof -
    have "rng_ok (new_SnowfallCanvas cfg ratio draws)"
      using that by (simp add: rng_ok_def new_SnowfallCanvas_def)
    then show ?thesis by (rule rng_ok_run)
  qed
qed

subsection \<open>Seeding\<close>

lemma seedParticle_fields:
  "originX (seedParticle i st) = (originX st)[i := fround (uniform 0 (width st) (rng st (rngPos st)))]"
  "posX (seedParticle i st) =
     (posX st)[i := fround ((originX st)[i := fround (uniform 0 (width st) (rng st (rngPos st)))] ! i)]"
  "posY (seedParticle i st) = (posY st)[i := fround (uniform (- height st) 0 (rng st (rngPos st + 1)))]"
  "dx (seedParticle i st) = (dx st)[i := fround (uniform 0 TWO_PI (rng st (rngPos st + 2)))]"
  "velX (seedParticle i st) =
     (velX st)[i := fround (uniform (fst (swingSpeed (config st))) (snd (swingSpeed (config st)))
        (rng st (rngPos st + 3)))]"
  "velY (seedParticle i st) =
     (velY st)[i := fround (uniform (fst (fallSpeed (config st))) (snd (fallSpeed (config st)))
        (rng st (rngPos st + 4)))]"
  "size_arr (seedParticle i st) =
     (size_arr st)[i := fround (uniform (fst (size_range (config st))) (snd (size_range (config st)))
        (rng st (rngPos st + 5)))]"
  "amplitude (seedParticle i st) =
     (amplitude st)[i := fround (uniform (fst (amplitude_range (config st)))
        (snd (amplitude_range (config st))) (rng st (rngPos st + 6)))]"
  "rngPos (seedParticle i st) = rngPos st + 7"
  by (simp_all add: seedParticle_def rand_uniform Let_def eval_nat_numeral)

lemma uniform_half:
  "uniform 0 40 (1/2) = 20" "uniform (- 26) 0 (1/2) = - 13" "uniform 40 100 (1/2) = 70"
  "uniform (1/2) (3/2) (1/2) = 1"
  by (simp_all add: uniform_def factor_2)


subsection \<open>A container that collapses\<close>

lemma upt_1: "[0..<1] = [0]"
  by (simp add: upt_rec)

lemma upt_2: "[0..<2] = [0, Suc 0]"
  by (simp add: upt_rec)

lemma replicate_2: "replicate 2 x = [x, x]"
  by (simp add: numeral_2_eq_2)

lemma resize_no_reseed:
  "\<not> 0 < c \<Longrightarrow> resize w h (Some (Num c)) st =
     st\<lparr>width := max 1 (of_int \<lfloor>w\<rfloor>), height := max 1 (of_int \<lfloor>h\<rfloor>), dpr := getTargetDpr st,
        canvasWidth := \<lfloor>double (max 1 (of_int \<lfloor>w\<rfloor>) * getTargetDpr st)\<rfloor>,
        canvasHeight := \<lfloor>double (max 1 (of_int \<lfloor>h\<rfloor>) * getTargetDpr st)\<rfloor>,
        ctxLog := ctxLog st @ [SetTransform (getTargetDpr st) 0 0 (getTargetDpr st) 0 0]\<rparr>"
  by (simp add: resize_def Let_def)

lemma resize_reseeds:
  "0 < c \<Longrightarrow> max 1 (of_int \<lfloor>w\<rfloor>) \<noteq> width st \<or> max 1 (of_int \<lfloor>h\<rfloor>) \<noteq> height st
      \<or> getTargetDpr st \<noteq> dpr st \<or> c \<noteq> particleCount st \<Longrightarrow>
   resize w h (Some (Num c)) st =
     reseedParticles c
      (st\<lparr>width := max 1 (of_int \<lfloor>w\<rfloor>), height := max 1 (of_int \<lfloor>h\<rfloor>), dpr := getTargetDpr st,
        canvasWidth := \<lfloor>double (max 1 (of_int \<lfloor>w\<rfloor>) * getTargetDpr st)\<rfloor>,
        canvasHeight := \<lfloor>double (max 1 (of_int \<lfloor>h\<rfloor>) * getTargetDpr st)\<rfloor>,
        ctxLog := ctxLog st @ [SetTransform (getTargetDpr st) 0 0 (getTargetDpr st) 0 0]\<rparr>)"
  by (simp add: resize_def Let_def)

lemma engine_1x_sized:
  defines "s \<equiv> resizeToContainer 40 26 engine_1x"
  shows "particleCount s = 2" "posY s = [- 13, - 13]" "velY s = [70, 70]" "size_arr s = [1, 1]"
    "posX s = [20, 20]" "width s = 40" "height s = 26" "store_ok s"
    "config s = defaultConfig" "dprOverride s = None" "devicePixelRatio s = 1" "dpr s = 1"
    "ctxLog s = [SetTransform 1 0 0 1 0 0]" "rng s = (\<lambda>n. 1/2)"
proof -
  define s1 where "s1 = engine_1x\<lparr>width := 40, height := 26, dpr := 1,
      canvasWidth := \<lfloor>double (40 * 1)\<rfloor>, canvasHeight := \<lfloor>double (26 * 1)\<rfloor>,
      ctxLog := ctxLog engine_1x @ [SetTransform 1 0 0 1 0 0]\<rparr>"
  define s2 where "s2 = s1\<lparr>particleCount := 2, posX := [0, 0], posY := [0, 0],
      originX := [0, 0], dx := [0, 0], size_arr := [0, 0], amplitude := [0, 0],
      velX := [0, 0], velY := [0, 0]\<rparr>"
  have e: "width engine_1x = 0" "height engine_1x = 0" "dpr engine_1x = 1"
    "particleCount engine_1x = 0" "posX engine_1x = []"
    by (simp_all add: engine_1x_def new_SnowfallCanvas_def)
  have g: "getDensityAdjustedCount engine_1x 40 26 = Num 2"
    by (rule gdac_40_26_1) (rule engine_1x_facts)+
  have "s = resize 40 26 (Some (Num 2)) engine_1x"
    by (simp add: s_def resizeToContainer_def g)
  also have "\<dots> = reseedParticles 2 s1"
    by (subst resize_reseeds) (simp_all add: e engine_1x_facts s1_def)
  also have "\<dots> = seedParticle (Suc 0) (seedParticle 0 s2)"
    by (simp add: reseedParticles_def Let_def upt_2 replicate_2 s2_def s1_def e)
  finally have s: "s = seedParticle (Suc 0) (seedParticle 0 s2)" .
  have f: "width s2 = 40" "height s2 = 26" "rng s2 = (\<lambda>n. 1/2)" "config s2 = defaultConfig"
    "posY s2 = [0, 0]" "velY s2 = [0, 0]" "size_arr s2 = [0, 0]" "posX s2 = [0, 0]"
    "originX s2 = [0, 0]" "dx s2 = [0, 0]" "velX s2 = [0, 0]" "amplitude s2 = [0, 0]"
    "particleCount s2 = 2" "dprOverride s2 = None" "devicePixelRatio s2 = 1" "dpr s2 = 1"
    "ctxLog s2 = [SetTransform 1 0 0 1 0 0]"
    by (simp_all add: s2_def s1_def engine_1x_def new_SnowfallCanvas_def)
  have c: "fallSpeed defaultConfig = (40, 100)" "size_range defaultConfig = (1/2, 3/2)"
    by (simp_all add: defaultConfig_def)
  show "particleCount s = 2" "width s = 40" "height s = 26" "config s = defaultConfig"
    "dprOverride s = None" "devicePixelRatio s = 1" "dpr s = 1"
    "ctxLog s = [SetTransform 1 0 0 1 0 0]" "rng s = (\<lambda>n. 1/2)"
    unfolding s by (simp_all add: seedParticle_frame f)
  show "posY s = [- 13, - 13]" "velY s = [70, 70]" "size_arr s = [1, 1]" "posX s = [20, 20]"
    unfolding s by (simp_all add: seedParticle_fields seedParticle_frame f c uniform_half)
  show "store_ok s"
    unfolding s by (simp add: store_ok_def seedParticle_fields f)
qed

lemma fall_13:
  "double (1 / 50) = 5764607523034235 / 288230376151711744"
  "double (70 * (5764607523034235 / 288230376151711744)) = 6305039478318695 / 4503599627370496"
  "double (- 13 + 6305039478318695 / 4503599627370496) = - (6530219459687219 / 562949953421312)"
  "fround (- (6530219459687219 / 562949953421312)) = - (6081741 / 524288)"
  "fround (- (58 / 5)) = - (6081741 / 524288)"
proof -
  show "double (1 / 50) = 5764607523034235 / 288230376151711744"
    using double_eval [of "- 6" "1 / 50" 5764607523034235] by simp
  show "double (70 * (5764607523034235 / 288230376151711744)) = 6305039478318695 / 4503599627370496"
    using double_eval [of 0 "70 * (5764607523034235 / 288230376151711744)" 6305039478318695] by simp
  show "double (- 13 + 6305039478318695 / 4503599627370496) = - (6530219459687219 / 562949953421312)"
    using double_eval [of 3 "- 13 + 6305039478318695 / 4503599627370496" "- 6530219459687219"] by simp
  show "fround (- (6530219459687219 / 562949953421312)) = - (6081741 / 524288)"
    using fround_eval [of 3 "- (6530219459687219 / 562949953421312)" "- 12163482"] by simp
  show "fround (- (58 / 5)) = - (6081741 / 524288)"
    using fround_eval [of 3 "- (58 / 5)" "- 12163482"] by simp
qed


lemma engine_1x_collapsed:
  defines "s \<equiv> run [ContainerSized 40 26, ContainerSized 0 26] engine_1x"
  shows "particleCount s = 2" "posY s = [- 13, - 13]" "velY s = [70, 70]" "size_arr s = [1, 1]"
    "posX s = [20, 20]" "width s = 1" "height s = 26" "store_ok s"
    "color (config s) = ''rgb(225,225,225)''"
    "ctxLog s = [SetTransform 1 0 0 1 0 0, SetTransform 1 0 0 1 0 0]"
proof -
  let ?a = "resizeToContainer 40 26 engine_1x"
  have t: "getTargetDpr ?a = 1"
    by (simp add: getTargetDpr_def engine_1x_sized defaultConfig_def)
  have "s = resizeToContainer 0 26 ?a" by (simp add: s_def run_def)
  also have "\<dots> = resize 0 26 (Some (Num 0)) ?a"
    by (simp add: resizeToContainer_def gdac_degenerate)
  finally have s: "s = ?a\<lparr>width := 1, height := 26, dpr := 1,
        canvasWidth := \<lfloor>double (1 * 1)\<rfloor>, canvasHeight := \<lfloor>double (26 * 1)\<rfloor>,
        ctxLog := ctxLog ?a @ [SetTransform 1 0 0 1 0 0]\<rparr>"
    by (simp add: resize_no_reseed t)
  show "particleCount s = 2" "posY s = [- 13, - 13]" "velY s = [70, 70]" "size_arr s = [1, 1]"
    "posX s = [20, 20]" "width s = 1" "height s = 26"
    "color (config s) = ''rgb(225,225,225)''"
    "ctxLog s = [SetTransform 1 0 0 1 0 0, SetTransform 1 0 0 1 0 0]"
    unfolding s by (simp_all add: engine_1x_sized defaultConfig_def)
  show "store_ok s"
    using engine_1x_sized(8) unfolding s by (simp add: store_ok_def)
qed

text \<open>
  Claim C7 says that with degenerate geometry the density model returns 0 particles and
  the simulation and render steps are no-ops. The engine below is sized to 40 by 26,
  which seeds two particles, and then its container collapses to width 0. The density
  model returns 0 for the collapsed size, but \<^verbatim>\<open>resize\<close> re-seeds only for a positive
  count, so both particles stay in the store: the next update, with a step of 0.02 s,
  moves the first from \<open>- 13\<close> to the \<^verbatim>\<open>Float32\<close> nearest to \<open>- 11.6\<close>, and the next
  draw paints two squares.
\<close>

theorem collapsed_container_keeps_particles:
  "getDensityAdjustedCount (resizeToContainer 40 26 engine_1x) 0 26 = Num 0
   \<and> particleCount (run [ContainerSized 40 26, ContainerSized 0 26] engine_1x) = 2
   \<and> posY (run [ContainerSized 40 26, ContainerSized 0 26] engine_1x) ! 0 = - 13
   \<and> posY (update (double (1/50)) (run [ContainerSized 40 26, ContainerSized 0 26] engine_1x)) ! 0
       = fround (- (58/5))
   \<and> ctxLog (draw (run [ContainerSized 40 26, ContainerSized 0 26] engine_1x))
       = ctxLog (run [ContainerSized 40 26, ContainerSized 0 26] engine_1x)
         @ [FillStyle ''rgb(225,225,225)'', FillRect 20 (- 13) 1 1, FillRect 20 (- 13) 1 1]"
proof -
  let ?s = "run [ContainerSized 40 26, ContainerSized 0 26] engine_1x"
  note f = engine_1x_collapsed
  have a: "getDensityAdjustedCount (resizeToContainer 40 26 engine_1x) 0 26 = Num 0"
    by (simp add: gdac_degenerate)
  have len: "0 < length (posY ?s)" and cnt: "real 0 < particleCount ?s"
    by (simp_all add: f)
  have "p_posY (move_particle (double (1/50)) (particle_of ?s 0))
      = fround (double (posY ?s ! 0 + double (velY ?s ! 0 * double (1/50))))"
    by (simp add: move_particle_def Let_def particle_of_sel)
  also have "\<dots> = fround (double (- 13 + double (70 * double (1/50))))"
    by (simp only: f nth_Cons_0)
  also have "\<dots> = - (6081741 / 524288)"
    by (simp only: fall_13)
  finally have y: "p_posY (move_particle (double (1/50)) (particle_of ?s 0)) = - (6081741 / 524288)" .
  have "double (- (6081741 / 524288) - 1) \<le> 0" by (rule double_nonpos) simp
  then have nb: "\<not> past_bottom (height ?s) (move_particle (double (1/50)) (particle_of ?s 0))"
    unfolding past_bottom_def y
    by (simp add: move_particle_def Let_def particle_of_sel f)
  have "p_posY (particle_of (update (double (1/50)) ?s) 0) = - (6081741 / 524288)"
    unfolding update_nth [OF f(8) len cnt] advance_particle_def using nb y by simp
  then have b: "posY (update (double (1/50)) ?s) ! 0 = fround (- (58/5))"
    by (simp add: particle_of_sel fall_13)
  have c: "ctxLog (draw ?s) = ctxLog ?s
         @ [FillStyle ''rgb(225,225,225)'', FillRect 20 (- 13) 1 1, FillRect 20 (- 13) 1 1]"
    by (simp add: draw_def f upt_2)
  show ?thesis using a b c by (simp add: f)
qed

subsection \<open>The controller on a small surface\<close>

lemma average_start:
  "double (9 / 10) = 8106479329266893 / 9007199254740992"
  "double (1 / 10) = 3602879701896397 / 36028797018963968"
  "double (16 * (8106479329266893 / 9007199254740992)) = 8106479329266893 / 562949953421312"
  "double (0 * (3602879701896397 / 36028797018963968)) = 0"
  "double (8106479329266893 / 562949953421312 + 0) = 8106479329266893 / 562949953421312"
  "double (72 / 5) = 8106479329266893 / 562949953421312"
proof -
  show "double (9 / 10) = 8106479329266893 / 9007199254740992"
    using double_eval [of "- 1" "9 / 10" 8106479329266893] by simp
  show "double (1 / 10) = 3602879701896397 / 36028797018963968"
    using double_eval [of "- 4" "1 / 10" 7205759403792794] by simp
  show "double (16 * (8106479329266893 / 9007199254740992)) = 8106479329266893 / 562949953421312"
    using double_eval [of 3 "16 * (8106479329266893 / 9007199254740992)" 8106479329266893] by simp
  show "double (0 * (3602879701896397 / 36028797018963968)) = 0"
    by simp
  show "double (8106479329266893 / 562949953421312 + 0) = 8106479329266893 / 562949953421312"
    using double_eval [of 3 "8106479329266893 / 562949953421312 + 0" 8106479329266893] by simp
  show "double (72 / 5) = 8106479329266893 / 562949953421312"
    using double_eval [of 3 "72 / 5" 8106479329266893] by simp
qed

lemma average_slow:
  "double (8106479329266893 / 562949953421312 * (8106479329266893 / 9007199254740992)) = 1823957849085051 / 140737488355328"
  "double (100 * (3602879701896397 / 36028797018963968)) = 10"
  "double (1823957849085051 / 140737488355328 + 10) = 3231332732638331 / 140737488355328"
  "double (574 / 25) = 3231332732638331 / 140737488355328"
proof -
  show "double (8106479329266893 / 562949953421312 * (8106479329266893 / 9007199254740992)) = 1823957849085051 / 140737488355328"
    using double_eval [of 3 "8106479329266893 / 562949953421312 * (8106479329266893 / 9007199254740992)" 7295831396340204] by simp
  show "double (100 * (3602879701896397 / 36028797018963968)) = 10"
    using double_eval [of 3 "100 * (3602879701896397 / 36028797018963968)" 5629499534213120] by simp
  show "double (1823957849085051 / 140737488355328 + 10) = 3231332732638331 / 140737488355328"
    using double_eval [of 4 "1823957849085051 / 140737488355328 + 10" 6462665465276662] by simp
  show "double (574 / 25) = 3231332732638331 / 140737488355328"
    using double_eval [of 4 "574 / 25" 6462665465276662] by simp
qed


lemma engine_2x_shrunk:
  defines "b \<equiv> run [ContainerSized 40 26, ContainerSized 10 10] engine_2x"
  shows "\<not> running b" "lastTime b = 0" "frameTimeAvg b = 16" "perfCooldownFrames b = 0"
    "dpr b = 2" "particleCount b = 1" "dprOverride b = None" "width b = 10" "height b = 10"
    "config b = defaultConfig" "devicePixelRatio b = 2"
proof -
  let ?a = "resizeToContainer 40 26 engine_2x"
  have e: "\<not> running engine_2x" "lastTime engine_2x = 0" "frameTimeAvg engine_2x = 16"
    "perfCooldownFrames engine_2x = 0" "dprOverride engine_2x = None"
    "config engine_2x = defaultConfig" "devicePixelRatio engine_2x = 2"
    by (simp_all add: engine_2x_def new_SnowfallCanvas_def)
  have g1: "getDensityAdjustedCount engine_2x 40 26 = Num 1"
    by (rule gdac_40_26_2) (rule engine_2x_facts)+
  have a: "\<not> running ?a" "lastTime ?a = 0" "frameTimeAvg ?a = 16" "perfCooldownFrames ?a = 0"
    "dprOverride ?a = None" "config ?a = defaultConfig" "devicePixelRatio ?a = 2"
    "particleCount ?a = 1"
    by (simp_all add: resizeToContainer_def resize_frame e g1 resize_sets_count)
  have t: "getTargetDpr ?a = 2"
    by (simp add: getTargetDpr_def a defaultConfig_def)
  have g2: "getDensityAdjustedCount ?a 10 10 = Num 0"
    by (rule gdac_10_10_2) (simp_all add: a t defaultConfig_def)
  have "b = resizeToContainer 10 10 ?a" by (simp add: b_def run_def)
  also have "\<dots> = resize 10 10 (Some (Num 0)) ?a"
    unfolding resizeToContainer_def [of 10 10] Let_def g2 ..
  finally have b: "b = resize 10 10 (Some (Num 0)) ?a" .
  show "\<not> running b" "lastTime b = 0" "frameTimeAvg b = 16" "perfCooldownFrames b = 0"
    "dpr b = 2" "particleCount b = 1" "dprOverride b = None" "width b = 10" "height b = 10"
    "config b = defaultConfig" "devicePixelRatio b = 2"
    unfolding b by (simp_all add: resize_frame resize_keeps_count a t)
qed

lemma shrunk_started:
  defines "s \<equiv> run [ContainerSized 40 26, ContainerSized 10 10, Started 0] engine_2x"
  shows "running s" "lastTime s = 0" "frameTimeAvg s = double (72/5)" "perfCooldownFrames s = 0"
    "dpr s = 2" "particleCount s = 1" "dprOverride s = None" "width s = 10" "height s = 10"
    "config s = defaultConfig" "devicePixelRatio s = 2"
proof -
  define b where "b = run [ContainerSized 40 26, ContainerSized 10 10] engine_2x"
  define b' where "b' = b\<lparr>running := True, lastTime := 0\<rparr>"
  define pre where "pre = draw (update (tick_dt 0 b')
       (clear (b'\<lparr>lastTime := 0, frameTimeAvg := tick_avg 0 b'\<rparr>)))"
  note b = engine_2x_shrunk [folded b_def]
  have b': "running b'" "lastTime b' = 0" "frameTimeAvg b' = 16" "perfCooldownFrames b' = 0"
    "dpr b' = 2" "particleCount b' = 1" "dprOverride b' = None" "width b' = 10" "height b' = 10"
    "config b' = defaultConfig" "devicePixelRatio b' = 2"
    by (simp_all add: b'_def b)
  have "tick_avg 0 b' = double (double (16 * double (9/10)) + double (double (0 - 0) * double (1/10)))"
    by (simp only: tick_avg_def b')
  also have "double (0 - 0) = 0" by simp
  finally have avg: "tick_avg 0 b' = double (72/5)"
    by (simp only: average_start)
  have pre: "running pre" "lastTime pre = 0" "frameTimeAvg pre = double (72/5)" "perfCooldownFrames pre = 0"
    "dpr pre = 2" "particleCount pre = 1" "dprOverride pre = None" "width pre = 10" "height pre = 10"
    "config pre = defaultConfig" "devicePixelRatio pre = 2"
    unfolding pre_def by (simp_all add: draw_frame update_frame clear_frame b' avg)
  have "s = start 0 b"
    unfolding s_def b_def
    using run_snoc [of "[ContainerSized 40 26, ContainerSized 10 10]" "Started 0" engine_2x]
    by simp
  also have "\<dots> = loop 0 b'" using b(1) by (simp add: start_def b'_def)
  also have "\<dots> = maybeAdjustPerformance pre"
    unfolding pre_def by (rule loop_running) (rule b')
  also have "\<dots> = pre"
    by (rule maybeAdjustPerformance_idle) (simp_all add: pre average_start)
  finally have s: "s = pre" .
  show "running s" "lastTime s = 0" "frameTimeAvg s = double (72/5)" "perfCooldownFrames s = 0"
    "dpr s = 2" "particleCount s = 1" "dprOverride s = None" "width s = 10" "height s = 10"
    "config s = defaultConfig" "devicePixelRatio s = 2"
    unfolding s by (rule pre)+
qed

lemma slow_frame:
  defines "s \<equiv> run [ContainerSized 40 26, ContainerSized 10 10, Started 0] engine_2x"
  shows "frameTimeAvg (loop 100 s) = double (574/25)"
    "perfCooldownFrames (loop 100 s) = 90"
    "dprOverride (loop 100 s) = Some (5/4)"
    "getDensityAdjustedCount (loop 100 s) 10 10 = Num 0"
    "width (loop 100 s) = 10" "height (loop 100 s) = 10"
    "particleCount (loop 100 s) = 1"
proof -
  define pre where "pre = draw (update (tick_dt 100 s)
       (clear (s\<lparr>lastTime := 100, frameTimeAvg := tick_avg 100 s\<rparr>)))"
  define s2 where "s2 = pre\<lparr>dprOverride := Some (5/4), perfCooldownFrames := 90\<rparr>"
  note f = shrunk_started [folded s_def]
  have l: "loop 100 s = maybeAdjustPerformance pre"
    unfolding pre_def by (rule loop_running) (rule f)
  have "tick_avg 100 s
      = double (double (double (72/5) * double (9/10)) + double (double (100 - 0) * double (1/10)))"
    by (simp only: tick_avg_def f)
  also have "double (100 - 0) = 100" by simp
  finally have avg: "tick_avg 100 s = double (574/25)"
    by (simp only: average_start average_slow)
  have big: "22 < double (574/25)" by (simp add: average_slow)
  have pre: "perfCooldownFrames pre = 0" "frameTimeAvg pre = double (574/25)" "dpr pre = 2"
    "particleCount pre = 1" "dprOverride pre = None" "width pre = 10" "height pre = 10"
    "config pre = defaultConfig" "devicePixelRatio pre = 2"
    unfolding pre_def by (simp_all add: draw_frame update_frame clear_frame f avg)
  have s2: "config s2 = defaultConfig" "devicePixelRatio s2 = 2" "dprOverride s2 = Some (5/4)"
    "width s2 = 10" "height s2 = 10" "particleCount s2 = 1" "frameTimeAvg s2 = double (574/25)"
    "perfCooldownFrames s2 = 90"
    by (simp_all add: s2_def pre)
  have t: "getTargetDpr s2 = 5/4"
    by (simp add: getTargetDpr_def s2 defaultConfig_def)
  have g: "getDensityAdjustedCount s2 10 10 = Num 0"
    by (rule gdac_10_10_5_4) (simp_all add: s2 t defaultConfig_def)
  have r: "max 200 (of_int \<lfloor>double (1 * (3/4))\<rfloor>) = (200::real)"
  proof -
    have "double (3/4) = 3/4" using double_dyadic [of 3 2] by simp
    then show ?thesis by simp
  qed
  have m: "maybeAdjustPerformance pre = resize 10 10 (Some (Num 0)) s2"
    using big by (simp add: maybeAdjustPerformance_def pre Let_def s2_def [symmetric] r) (simp add: s2 g)
  show "frameTimeAvg (loop 100 s) = double (574/25)"
    "perfCooldownFrames (loop 100 s) = 90"
    "dprOverride (loop 100 s) = Some (5/4)"
    "width (loop 100 s) = 10" "height (loop 100 s) = 10"
    "particleCount (loop 100 s) = 1"
    unfolding l m by (simp_all add: resize_frame resize_fields resize_keeps_count s2)
  have t': "getTargetDpr (loop 100 s) = 5/4"
    unfolding l m by (simp add: getTargetDpr_def resize_frame s2 defaultConfig_def)
  have c': "config (loop 100 s) = defaultConfig"
    unfolding l m by (simp add: resize_frame s2)
  show "getDensityAdjustedCount (loop 100 s) 10 10 = Num 0"
    by (rule gdac_10_10_5_4) (simp_all add: t' c' defaultConfig_def)
qed

text \<open>
  Claim C4 says that when the controller acts, the particle count is re-seeded to the
  minimum of the reduced count and the target count. The engine below, on a platform
  with pixel ratio 2, is sized to 40 by 26, which seeds one particle, and then to 10 by
  10, where the target count is 0. After a frame of 100 ms the average frame time is
  the double nearest to 22.96 ms: the controller lowers the override to 1.25 and
  starts a cooldown of 90 frames. The minimum of the reduced count 200 and the target
  count 0 is 0, but \<^verbatim>\<open>resize\<close> re-seeds only for a positive count, and the particle
  count stays 1.
\<close>

theorem controller_keeps_count_for_zero_target:
  "particleCount (run [ContainerSized 40 26, ContainerSized 10 10, Started 0] engine_2x) = 1
   \<and> dpr (run [ContainerSized 40 26, ContainerSized 10 10, Started 0] engine_2x) = 2
   \<and> dprOverride (run [ContainerSized 40 26, ContainerSized 10 10, Started 0] engine_2x) = None
   \<and> perfCooldownFrames (run [ContainerSized 40 26, ContainerSized 10 10, Started 0] engine_2x) = 0
   \<and> frameTimeAvg (run [ContainerSized 40 26, ContainerSized 10 10, Started 0, Frame 100] engine_2x)
       = double (574/25)
   \<and> 22 < double (574/25)
   \<and> perfCooldownFrames (run [ContainerSized 40 26, ContainerSized 10 10, Started 0, Frame 100] engine_2x) = 90
   \<and> dprOverride (run [ContainerSized 40 26, ContainerSized 10 10, Started 0, Frame 100] engine_2x) = Some (5/4)
   \<and> js_min (max 200 (of_int \<lfloor>double (1 * (3/4))\<rfloor>))
        (getDensityAdjustedCount
          (run [ContainerSized 40 26, ContainerSized 10 10, Started 0, Frame 100] engine_2x) 10 10)
       = Num 0
   \<and> particleCount (run [ContainerSized 40 26, ContainerSized 10 10, Started 0, Frame 100] engine_2x) = 1"
proof -
  have r: "run [ContainerSized 40 26, ContainerSized 10 10, Started 0, Frame 100] engine_2x
      = loop 100 (run [ContainerSized 40 26, ContainerSized 10 10, Started 0] engine_2x)"
    using run_snoc [of "[ContainerSized 40 26, ContainerSized 10 10, Started 0]" "Frame 100" engine_2x]
    by simp
  have big: "22 < double (574/25)" by (simp add: average_slow)
  have d: "double (3/4) = 3/4" using double_dyadic [of 3 2] by simp
  show ?thesis
    unfolding r using big by (simp add: slow_frame shrunk_started d)
qed

text \<open>The same session as an instance of the ratchet: the override goes from none to
  1.25, and the effective scale stays below the cap of 2.\<close>

theorem override_ratchet_witness:
  "dprOverride engine_2x = None
   \<and> dprOverride (run [ContainerSized 40 26, ContainerSized 10 10, Started 0, Frame 100] engine_2x)
       = Some (5/4)
   \<and> override_le (Some (5/4)) None
   \<and> getTargetDpr (run [ContainerSized 40 26, ContainerSized 10 10, Started 0, Frame 100] engine_2x)
       \<le> min 2 (max 1 2)"
proof -
  let ?evs = "[ContainerSized 40 26, ContainerSized 10 10, Started 0, Frame 100]"
  have r: "run ?evs engine_2x
      = loop 100 (run [ContainerSized 40 26, ContainerSized 10 10, Started 0] engine_2x)"
    using run_snoc [of "[ContainerSized 40 26, ContainerSized 10 10, Started 0]" "Frame 100" engine_2x]
    by simp
  have o: "dprOverride (run ?evs engine_2x) = Some (5/4)"
    unfolding r by (rule slow_frame)
  have p: "platformScale (run ?evs engine_2x) = 2"
    by (simp add: platformScale_def run_def loop_frame start_frame resizeToContainer_frame)
      (simp add: engine_2x_def new_SnowfallCanvas_def)
  have c: "dprCap (config engine_2x) = 2" "dprOverride engine_2x = None"
    by (simp_all add: engine_2x_def new_SnowfallCanvas_def defaultConfig_def)
  from override_ratchet [of ?evs engine_2x] show ?thesis
    by (simp add: o p c)
qed

end
